theory Spec2Isabelle
  imports Main
begin

section \<open>JavaScript values\<close>

text \<open>
  The dispatcher of \<^verbatim>\<open>src/Router.ts\<close> works on dynamically typed values: events,
  handler namespaces, thrown failures and response bodies. They are modelled by one
  datatype. An object is the list of its own properties (the first binding of a key
  wins); a function value is an identifier whose behaviour is given by the environment
  (see \<open>call\<close> below). Properties inherited from a prototype and the built-in
  properties of primitives are not modelled: reading them yields \<open>JUndefined\<close>.
\<close>

datatype jsval =
    JUndefined
  | JNull
  | JBool bool
  | JNum int
  | JStr string
  | JObj "(string \<times> jsval) list"
  | JFun nat

text \<open>Truthiness, as tested by \<^verbatim>\<open>!x\<close>, \<^verbatim>\<open>x || y\<close> and \<^verbatim>\<open>x && y\<close>.\<close>

fun truthy :: "jsval \<Rightarrow> bool" where
  "truthy JUndefined = False"
| "truthy JNull = False"
| "truthy (JBool b) = b"
| "truthy (JNum n) = (n \<noteq> 0)"
| "truthy (JStr s) = (s \<noteq> [])"
| "truthy (JObj ps) = True"
| "truthy (JFun f) = True"

definition js_or :: "jsval \<Rightarrow> jsval \<Rightarrow> jsval" where
  "js_or a b = (if truthy a then a else b)"

definition js_and :: "jsval \<Rightarrow> jsval \<Rightarrow> jsval" where
  "js_and a b = (if truthy a then b else a)"

definition nullish :: "jsval \<Rightarrow> bool" where
  "nullish v \<longleftrightarrow> v = JUndefined \<or> v = JNull"

text \<open>\<^verbatim>\<open>v[k]\<close> on a value that is neither \<^verbatim>\<open>null\<close> nor \<^verbatim>\<open>undefined\<close>.\<close>

fun lookup :: "jsval \<Rightarrow> string \<Rightarrow> jsval" where
  "lookup (JObj ps) k = (case map_of ps k of None \<Rightarrow> JUndefined | Some v \<Rightarrow> v)"
| "lookup v k = JUndefined"

text \<open>\<^verbatim>\<open>typeof v === 'function'\<close>, giving the function's identifier.\<close>

fun callable :: "jsval \<Rightarrow> nat option" where
  "callable (JFun f) = Some f"
| "callable v = None"

text \<open>
  An error object created by the runtime or by \<^verbatim>\<open>new Error(message)\<close>: its class name,
  its message and the stack trace captured at creation (the trace text belongs to the
  engine and is a parameter).
\<close>

definition js_Error :: "string \<Rightarrow> string \<Rightarrow> string \<Rightarrow> jsval" where
  "js_Error trace kind message =
     JObj [(''name'', JStr kind), (''message'', JStr message), (''stack'', JStr trace)]"

text \<open>
  \<^verbatim>\<open>v[k]\<close> in general: reading a property of \<^verbatim>\<open>undefined\<close> or \<^verbatim>\<open>null\<close> throws a
  \<^verbatim>\<open>TypeError\<close> (\<open>Inl\<close>); the wording of its message is the engine's.
\<close>

definition getprop :: "string \<Rightarrow> jsval \<Rightarrow> string \<Rightarrow> jsval + jsval" where
  "getprop trace v k =
     (if nullish v
      then Inl (js_Error trace ''TypeError'' (''Cannot read properties of undefined (reading '' @ k @ '')''))
      else Inr (lookup v k))"

text \<open>\<^verbatim>\<open>s.split(sep)\<close> for a one-character separator.\<close>

fun split_on :: "char \<Rightarrow> string \<Rightarrow> string list" where
  "split_on sep [] = [[]]"
| "split_on sep (c # cs) =
     (if c = sep then [] # split_on sep cs
      else (case split_on sep cs of
              [] \<Rightarrow> [[c]]
            | w # ws \<Rightarrow> (c # w) # ws))"


section \<open>Invocation context, middleware and composition\<close>

text \<open>
  The per-invocation context object. \<^verbatim>\<open>Router.ts\<close> reads \<^verbatim>\<open>ctx.event\<close> and
  \<^verbatim>\<open>ctx.controller\<close> and writes \<^verbatim>\<open>ctx.body\<close>; everything else middleware keeps on the
  context is the field \<open>ctx_state\<close>.
\<close>

record ctx =
  ctx_event :: jsval
  ctx_context :: jsval
  ctx_controller :: jsval
  ctx_body :: jsval
  ctx_state :: jsval

text \<open>
  How an awaited step ends: normally, or by throwing (rejecting with) a value. The
  context is a shared mutable object, so both outcomes carry its state.
\<close>

datatype completion = Normal ctx | Thrown jsval ctx

text \<open>
  A middleware: the function \<^verbatim>\<open>(ctx, next) => ...\<close> with \<^verbatim>\<open>next\<close> as a continuation on the
  current context, its \<^verbatim>\<open>_name\<close> property and its own \<^verbatim>\<open>name\<close>.
\<close>

record Middleware =
  invoke :: "ctx \<Rightarrow> (ctx \<Rightarrow> completion) \<Rightarrow> completion"
  u_name :: jsval
  fn_name :: string

text \<open>
  Modelled from the spec: \<^verbatim>\<open>compose\<close> of the package koa-compose, which is not under
  src/. Section 4.1: onion nesting, entries registered earlier wrap entries registered
  later, and \<^verbatim>\<open>next\<close> proceeds inward; after the last entry the chain completes. Each
  middleware is taken to await \<^verbatim>\<open>next\<close>; the package's refusal of a second call of
  \<^verbatim>\<open>next\<close> by one middleware is not modelled.
\<close>

fun compose :: "Middleware list \<Rightarrow> ctx \<Rightarrow> completion" where
  "compose [] c = Normal c"
| "compose (m # ms) c = invoke m c (compose ms)"


section \<open>Configuration and environment\<close>

text \<open>An argument of \<^verbatim>\<open>use\<close>: a function, or any other value.\<close>

datatype arg = Callable Middleware | NotCallable jsval

text \<open>
  \<^verbatim>\<open>RouterOptions\<close>. \<open>opt_debug\<close> is \<open>JUndefined\<close> when absent; \<open>opt_middleware\<close> is
  \<open>None\<close> when the property is not an array.
\<close>

record RouterOptions =
  opt_debug :: jsval
  opt_baseDir :: "string option"
  opt_middleware :: "(arg \<times> jsval) list option"

text \<open>
  What \<^verbatim>\<open>Router.ts\<close> imports from files that are not under src/, and what it takes from
  the host: these are parameters of the model.
  \<^item> \<open>FAILED_CODE\<close>, \<open>createRouteMatch\<close>, \<open>runInUniCloud\<close> from \<^verbatim>\<open>./utils\<close>;
  \<^item> \<open>createContext\<close> from \<^verbatim>\<open>./BaseContext\<close>;
  \<^item> \<open>http\<close> and \<open>parseAction\<close> from \<^verbatim>\<open>./middleware/http\<close> (\<open>parseAction\<close> gives the
    action string, \<open>None\<close> for \<^verbatim>\<open>undefined\<close>);
  \<^item> \<open>uniCloud_args\<close>, \<open>uniCloud_ctx\<close>: the globals \<^verbatim>\<open>uniCloud.$args\<close>, \<^verbatim>\<open>uniCloud.$ctx\<close>;
  \<^item> \<open>call f this c\<close>: the behaviour of the function value \<open>JFun f\<close> called with receiver
    \<open>this\<close> and the context as sole argument, awaited;
  \<^item> \<open>path_resolve\<close>, \<open>process_cwd\<close>: \<^verbatim>\<open>path.resolve\<close> and \<^verbatim>\<open>process.cwd()\<close>;
  \<^item> \<open>stackTrace\<close>: the text of the stack trace of an error object;
  \<^item> \<open>regexp_replace src s r\<close>: \<^verbatim>\<open>s.replace(new RegExp(src), r)\<close> for a pattern source
    that contains regular-expression syntax characters (it may throw a \<^verbatim>\<open>SyntaxError\<close>).
\<close>

datatype call_result = Returned jsval ctx | Raised jsval ctx

record env =
  FAILED_CODE :: jsval
  createRouteMatch :: "jsval \<Rightarrow> ctx \<Rightarrow> bool"
  runInUniCloud :: bool
  createContext :: "RouterOptions \<Rightarrow> jsval \<Rightarrow> jsval \<Rightarrow> string \<Rightarrow> string \<Rightarrow> ctx"
  http :: Middleware
  parseAction :: "jsval \<Rightarrow> string option"
  uniCloud_args :: jsval
  uniCloud_ctx :: jsval
  call :: "nat \<Rightarrow> jsval \<Rightarrow> ctx \<Rightarrow> call_result"
  path_resolve :: "string \<Rightarrow> string \<Rightarrow> string"
  process_cwd :: string
  stackTrace :: string
  regexp_replace :: "string \<Rightarrow> string \<Rightarrow> string \<Rightarrow> jsval + string"

text \<open>
  Modelled from the spec: \<^verbatim>\<open>error(message)\<close> of \<^verbatim>\<open>./middleware/error\<close>, which is not
  under src/. Sections 4.3 and 4.4: the synthetic handler carries the name tag
  \<^verbatim>\<open>error\<close>, and when executed it throws a failure whose message is the given one and
  that has no code of its own.
\<close>

definition error :: "env \<Rightarrow> string \<Rightarrow> Middleware" where
  "error E message =
     \<lparr>invoke = (\<lambda>c next. Thrown (js_Error (stackTrace E) ''Error'' message) c),
      u_name = JStr ''error'',
      fn_name = ''error''\<rparr>"


section \<open>The Router\<close>

definition SERVICE_DIR :: string where
  "SERVICE_DIR = ''service''"

definition CONTROLLER_DIR :: string where
  "CONTROLLER_DIR = ''controller''"

record Router =
  config :: RouterOptions
  middleware :: "Middleware list"
  serviceDir :: string
  controllerDir :: string

subsection \<open>wrapMiddleware and use\<close>

definition wrapMiddleware :: "env \<Rightarrow> Middleware \<Rightarrow> jsval \<Rightarrow> Middleware" where
  "wrapMiddleware E fn options =
     (let matchFn = createRouteMatch E options;
          name1 = (if truthy (js_and options (lookup options ''name''))
                   then lookup options ''name'' else JUndefined);
          name2 = (if \<not> truthy name1 then js_or (u_name fn) (JStr (fn_name fn)) else name1)
      in \<lparr>invoke = (\<lambda>c next. if \<not> matchFn c then next c else invoke fn c next),
          u_name = name2,
          fn_name = ''mw''\<rparr>)"

definition use :: "env \<Rightarrow> Router \<Rightarrow> arg \<Rightarrow> jsval \<Rightarrow> jsval + Router" where
  "use E r fn options =
     (case fn of
        NotCallable v \<Rightarrow>
          Inl (js_Error (stackTrace E) ''TypeError'' ''middleware must be a function'')
      | Callable f \<Rightarrow>
          Inr (r\<lparr>middleware := middleware r @ [wrapMiddleware E f options]\<rparr>))"

subsection \<open>initMiddleware and the constructor\<close>

text \<open>\<^verbatim>\<open>middleware.forEach(([mw, options]) => this.use(mw, options))\<close>\<close>

fun use_each :: "env \<Rightarrow> Router \<Rightarrow> (arg \<times> jsval) list \<Rightarrow> jsval + Router" where
  "use_each E r [] = Inr r"
| "use_each E r ((mw, options) # rest) =
     (case use E r mw options of
        Inl e \<Rightarrow> Inl e
      | Inr r' \<Rightarrow> use_each E r' rest)"

definition http_options :: jsval where
  "http_options = JObj [(''name'', JStr ''http'')]"

definition initMiddleware :: "env \<Rightarrow> Router \<Rightarrow> (arg \<times> jsval) list option \<Rightarrow> jsval + Router" where
  "initMiddleware E r mws =
     (case use E r (Callable (http E)) http_options of
        Inl e \<Rightarrow> Inl e
      | Inr r1 \<Rightarrow>
          (case mws of
             None \<Rightarrow> Inr r1
           | Some entries \<Rightarrow> use_each E r1 entries))"

text \<open>The constructor; \<open>None\<close> is an omitted configuration (\<^verbatim>\<open>config || {}\<close>).\<close>

definition empty_options :: RouterOptions where
  "empty_options = \<lparr>opt_debug = JUndefined, opt_baseDir = None, opt_middleware = None\<rparr>"

definition new_Router :: "env \<Rightarrow> RouterOptions option \<Rightarrow> jsval + Router" where
  "new_Router E cfg =
     (let config0 = (case cfg of None \<Rightarrow> empty_options | Some o' \<Rightarrow> o');
          baseDir = (case opt_baseDir config0 of None \<Rightarrow> process_cwd E | Some d \<Rightarrow> d);
          r0 = \<lparr>config = config0,
                middleware = [],
                serviceDir = path_resolve E baseDir SERVICE_DIR,
                controllerDir = path_resolve E baseDir CONTROLLER_DIR\<rparr>
      in initMiddleware E r0 (opt_middleware config0))"

subsection \<open>controller\<close>

text \<open>
  The loop \<^verbatim>\<open>for (i = 0; i < len - 1; i++) controller = controller[paths[i]]\<close> over the
  namespace segments: a property read of \<^verbatim>\<open>undefined\<close> or \<^verbatim>\<open>null\<close> throws.
\<close>

fun traverse :: "string \<Rightarrow> jsval \<Rightarrow> string list \<Rightarrow> jsval + jsval" where
  "traverse trace node [] = Inr node"
| "traverse trace node (p # ps) =
     (case getprop trace node p of
        Inl e \<Rightarrow> Inl e
      | Inr node' \<Rightarrow> traverse trace node' ps)"

text \<open>
  \<^verbatim>\<open>paths[len - 1]\<close> is \<^verbatim>\<open>undefined\<close> (\<open>None\<close>) when \<^verbatim>\<open>paths\<close> is empty; as a property
  key and in a string concatenation \<^verbatim>\<open>undefined\<close> reads \<^verbatim>\<open>'undefined'\<close>.
\<close>

definition key_of :: "string option \<Rightarrow> string" where
  "key_of methodName = (case methodName of None \<Rightarrow> ''undefined'' | Some s \<Rightarrow> s)"

text \<open>
  The characters with a meaning in the source of a regular expression (the first is
  the backslash); \<^verbatim>\<open>$\<close> is also
  the one character with a meaning in a replacement string.
\<close>

definition regexp_syntax :: "char \<Rightarrow> bool" where
  "regexp_syntax ch \<longleftrightarrow> ch \<in> set (CHR 0x5C # ''^$.*+?()[]{}|'')"

text \<open>
  \<^verbatim>\<open>action.replace(new RegExp('/' + methodName + '$'), replacement)\<close>. When the method
  name has no syntax character, the pattern matches exactly a final \<^verbatim>\<open>/methodName\<close> of
  the action, which is replaced; an action that does not end so is unchanged.
  Otherwise the result is the regular-expression engine's.
\<close>

definition replace_tail :: "env \<Rightarrow> string \<Rightarrow> string option \<Rightarrow> string \<Rightarrow> jsval + string" where
  "replace_tail E action methodName replacement =
     (let tail = ''/'' @ key_of methodName in
      if list_ex regexp_syntax tail \<or> CHR ''$'' \<in> set replacement
      then regexp_replace E (tail @ ''$'') action replacement
      else if length tail \<le> length action \<and> drop (length action - length tail) action = tail
      then Inr (take (length action - length tail) action @ replacement)
      else Inr action)"

text \<open>
  The wrapper returned on success (\<^verbatim>\<open>async function (ctx) { ... }\<close>): it calls the
  method with the namespace node as receiver and does not call \<^verbatim>\<open>next\<close>.
\<close>

definition handler :: "env \<Rightarrow> jsval \<Rightarrow> nat \<Rightarrow> string option \<Rightarrow> Middleware" where
  "handler E node method methodName =
     \<lparr>invoke = (\<lambda>c next.
         case call E method node c of
           Raised e c1 \<Rightarrow> Thrown e c1
         | Returned ret c1 \<Rightarrow>
             Normal (if ret \<noteq> JUndefined then c1\<lparr>ctx_body := ret\<rparr> else c1)),
      u_name = (case methodName of None \<Rightarrow> JUndefined | Some s \<Rightarrow> JStr s),
      fn_name = ''middleware''\<rparr>"

definition controller :: "env \<Rightarrow> ctx \<Rightarrow> jsval + Middleware" where
  \<open>controller E c =
     (case parseAction E (ctx_event c) of
        None \<Rightarrow> Inr (error E ''action is required'')
      | Some action \<Rightarrow>
          if action = [] then Inr (error E ''action is required'')
          else
            let paths = filter (\<lambda>s. s \<noteq> []) (split_on CHR ''/'' action);
                len = length paths
            in
              if len = 1 then Inr (error E ''action must contain "/"'')
              else
                let methodName = (if paths = [] then None else Some (last paths)) in
                (case traverse (stackTrace E) (ctx_controller c) (butlast paths) of
                   Inl e \<Rightarrow> Inl e
                 | Inr node \<Rightarrow>
                     if \<not> truthy node then
                       (case replace_tail E action methodName [] of
                          Inl e \<Rightarrow> Inl e
                        | Inr s \<Rightarrow> Inr (error E (''controller/'' @ s @ '' not found'')))
                     else
                       (case callable (lookup node (key_of methodName)) of
                          None \<Rightarrow>
                            (case replace_tail E action methodName (''.'' @ key_of methodName) of
                               Inl e \<Rightarrow> Inl e
                             | Inr s \<Rightarrow> Inr (error E (''controller/'' @ s @ '' is not a function'')))
                        | Some method \<Rightarrow> Inr (handler E node method methodName))))\<close>

subsection \<open>failed, respond and serve\<close>

text \<open>
  \<^verbatim>\<open>failed(err)\<close>: \<^verbatim>\<open>err.code\<close> is read first and throws a \<^verbatim>\<open>TypeError\<close> when \<^verbatim>\<open>err\<close> is
  \<^verbatim>\<open>undefined\<close> or \<^verbatim>\<open>null\<close>. The result object has its keys in the order of assignment.
\<close>

definition failed :: "env \<Rightarrow> Router \<Rightarrow> jsval \<Rightarrow> jsval + jsval" where
  "failed E r err =
     (if nullish err
      then Inl (js_Error (stackTrace E) ''TypeError'' ''Cannot read properties of undefined (reading code)'')
      else
        let ret = [(''code'', js_or (lookup err ''code'') (FAILED_CODE E)),
                   (''message'', js_or (lookup err ''message'') err)]
        in Inr (JObj (if opt_debug (config r) = JBool True
                      then ret @ [(''stack'', js_or (lookup err ''stack'') (JStr []))]
                      else ret)))"

definition respond :: "ctx \<Rightarrow> jsval" where
  "respond c = ctx_body c"

text \<open>
  How the promise returned by \<^verbatim>\<open>serve\<close> ends. \<open>Rejected\<close>: an exception thrown in the
  body of the \<^verbatim>\<open>async\<close> function before the inner promise is built. \<open>Unsettled\<close>: the
  callback of \<^verbatim>\<open>.catch\<close> threw, so \<^verbatim>\<open>resolve\<close> is never called and the returned promise
  stays pending, the thrown value being an unhandled rejection.
\<close>

datatype settlement = Resolved jsval | Rejected jsval | Unsettled jsval

text \<open>The context built at the start of \<^verbatim>\<open>serve\<close>; an omitted argument is \<open>JUndefined\<close>.\<close>

definition serve_context :: "env \<Rightarrow> Router \<Rightarrow> jsval \<Rightarrow> jsval \<Rightarrow> ctx" where
  "serve_context E r event context' =
     createContext E (config r)
       (js_or event (js_and (JBool (runInUniCloud E)) (uniCloud_args E)))
       (js_or context' (js_and (JBool (runInUniCloud E)) (uniCloud_ctx E)))
       (serviceDir r) (controllerDir r)"

text \<open>The choice of the chain \<^verbatim>\<open>fn\<close> (lines 95 to 100).\<close>

definition chain :: "env \<Rightarrow> Router \<Rightarrow> Middleware \<Rightarrow> ctx \<Rightarrow> completion" where
  "chain E r h =
     (if u_name h = JStr ''error''
      then compose [http E, h]
      else compose (middleware r @ [h]))"

definition serve :: "env \<Rightarrow> Router \<Rightarrow> jsval \<Rightarrow> jsval \<Rightarrow> settlement" where
  "serve E r event context' =
     (let c = serve_context E r event context' in
      case controller E c of
        Inl e \<Rightarrow> Rejected e
      | Inr h \<Rightarrow>
          (case chain E r h c of
             Normal c' \<Rightarrow> Resolved (respond c')
           | Thrown err c' \<Rightarrow>
               (case failed E r err of
                  Inl e \<Rightarrow> Unsettled e
                | Inr ret \<Rightarrow> Resolved ret)))"


section \<open>Notions used in the statements\<close>

text \<open>
  The transport middleware is a parameter. Where a statement needs it, the assumption
  on it is that, entered on context \<open>c\<close>, it continues with the next entry on some
  context and lets a failure of the rest of the chain pass unchanged (it awaits
  \<^verbatim>\<open>next()\<close> outside any \<^verbatim>\<open>try\<close>).
\<close>

definition passes_failure :: "Middleware \<Rightarrow> ctx \<Rightarrow> bool" where
  "passes_failure m c \<longleftrightarrow>
     (\<exists>c1. \<forall>k e c2. k c1 = Thrown e c2 \<longrightarrow> invoke m c k = Thrown e c2)"

text \<open>
  The response for a failure that carries only a message: the default code, the
  message, and the stack when the debug flag is \<^verbatim>\<open>true\<close>.
\<close>

definition failure_value :: "env \<Rightarrow> Router \<Rightarrow> string \<Rightarrow> jsval" where
  "failure_value E r message =
     JObj ([(''code'', FAILED_CODE E), (''message'', JStr message)] @
           (if opt_debug (config r) = JBool True
            then [(''stack'', JStr (stackTrace E))] else []))"

text \<open>The non-empty segments of an action, as computed in \<^verbatim>\<open>controller\<close>.\<close>

definition segments :: "string \<Rightarrow> string list" where
  "segments action = filter (\<lambda>s. s \<noteq> []) (split_on CHR ''/'' action)"

text \<open>The wrappers registered for the callable entries of a configuration.\<close>

definition wrapped_entries :: "env \<Rightarrow> (arg \<times> jsval) list \<Rightarrow> Middleware list" where
  "wrapped_entries E entries =
     concat (map (\<lambda>(a, options).
       case a of Callable f \<Rightarrow> [wrapMiddleware E f options] | NotCallable v \<Rightarrow> []) entries)"


section \<open>An example deployment\<close>

text \<open>
  A concrete environment on which the statements are evaluated: the transport
  middleware only continues, the action is the event's \<^verbatim>\<open>action\<close> property, a
  middleware whose options have \<^verbatim>\<open>enable: false\<close> never matches, and five handler
  functions: 0 returns \<^verbatim>\<open>'V'\<close>, 1 throws \<^verbatim>\<open>{code: 42, message: 'boom'}\<close>, 2 returns
  \<^verbatim>\<open>undefined\<close>, 3 throws \<^verbatim>\<open>undefined\<close>, 4 throws \<^verbatim>\<open>{code: 0, message: 'boom'}\<close>.
\<close>

definition demo_http :: Middleware where
  "demo_http = \<lparr>invoke = (\<lambda>c next. next c), u_name = JUndefined, fn_name = ''http''\<rparr>"

definition demo_call :: "nat \<Rightarrow> jsval \<Rightarrow> ctx \<Rightarrow> call_result" where
  "demo_call f this c =
     (if f = 0 then Returned (JStr ''V'') c
      else if f = 1 then Raised (JObj [(''code'', JNum 42), (''message'', JStr ''boom'')]) c
      else if f = 2 then Returned JUndefined c
      else if f = 3 then Raised JUndefined c
      else Raised (JObj [(''code'', JNum 0), (''message'', JStr ''boom'')]) c)"

definition demo_context :: "jsval \<Rightarrow> jsval \<Rightarrow> jsval \<Rightarrow> ctx" where
  "demo_context ns ev cx =
     \<lparr>ctx_event = ev, ctx_context = cx, ctx_controller = ns,
      ctx_body = JUndefined, ctx_state = JUndefined\<rparr>"

definition demo_env :: "jsval \<Rightarrow> env" where
  "demo_env ns =
     \<lparr>FAILED_CODE = JStr ''INTERNAL_SERVER_ERROR'',
      createRouteMatch = (\<lambda>options c. lookup options ''enable'' \<noteq> JBool False),
      runInUniCloud = False,
      createContext = (\<lambda>cfg ev cx sd cd. demo_context ns ev cx),
      http = demo_http,
      parseAction = (\<lambda>ev. case lookup ev ''action'' of JStr s \<Rightarrow> Some s | _ \<Rightarrow> None),
      uniCloud_args = JUndefined,
      uniCloud_ctx = JUndefined,
      call = demo_call,
      path_resolve = (\<lambda>a b. a @ ''/'' @ b),
      process_cwd = ''/app'',
      stackTrace = ''Error at <anonymous>'',
      regexp_replace = (\<lambda>src s r. Inr s)\<rparr>"

definition demo_options :: "jsval \<Rightarrow> RouterOptions" where
  "demo_options dbg = \<lparr>opt_debug = dbg, opt_baseDir = None, opt_middleware = None\<rparr>"

text \<open>The router that \<open>new_Router\<close> builds from these options (see \<open>demo_router_new\<close>).\<close>

definition demo_router :: "jsval \<Rightarrow> jsval \<Rightarrow> Router" where
  "demo_router ns dbg =
     \<lparr>config = demo_options dbg,
      middleware = [wrapMiddleware (demo_env ns) demo_http http_options],
      serviceDir = ''/app/service'',
      controllerDir = ''/app/controller''\<rparr>"

definition demo_event :: "string \<Rightarrow> jsval" where
  "demo_event action = JObj [(''action'', JStr action)]"

definition demo_sub :: jsval where
  "demo_sub = JObj [(''ok'', JFun 0), (''bad'', JFun 1), (''none'', JFun 2),
                    (''undef'', JFun 3), (''zero'', JFun 4), (''val'', JNum 3)]"

definition demo_ns :: jsval where
  "demo_ns = JObj [(''ns'', JObj [(''sub'', demo_sub)])]"

text \<open>A user middleware that fails as soon as it is entered.\<close>

definition demo_thrower :: Middleware where
  "demo_thrower =
     \<lparr>invoke = (\<lambda>c next. Thrown (JStr ''ran'') c), u_name = JUndefined, fn_name = ''thrower''\<rparr>"


section \<open>Basic facts\<close>

lemma demo_router_new:
  "new_Router (demo_env ns) (Some (demo_options dbg)) = Inr (demo_router ns dbg)"
  by (simp add: new_Router_def initMiddleware_def use_def demo_router_def demo_options_def
      demo_env_def SERVICE_DIR_def CONTROLLER_DIR_def)

lemma serve_unfold:
  "serve E r event cx =
     (case controller E (serve_context E r event cx) of
        Inl e \<Rightarrow> Rejected e
      | Inr h \<Rightarrow>
          (case chain E r h (serve_context E r event cx) of
             Normal c' \<Rightarrow> Resolved (respond c')
           | Thrown err c' \<Rightarrow>
               (case failed E r err of
                  Inl e \<Rightarrow> Unsettled e
                | Inr ret \<Rightarrow> Resolved ret)))"
  by (simp add: serve_def Let_def)

lemma demo_serve_context [simp]:
  "serve_context (demo_env ns) r event cx =
     demo_context ns (js_or event (JBool False)) (js_or cx (JBool False))"
  by (simp add: serve_context_def demo_env_def js_and_def)

lemma demo_controller_sub:
  "ns = JObj [(''ns'', JObj [(''sub'', node)])] \<Longrightarrow> lookup node name = JFun f \<Longrightarrow> truthy node \<Longrightarrow>
   name \<in> {''ok'', ''bad'', ''none'', ''undef'', ''zero''} \<Longrightarrow>
   controller (demo_env ns) (demo_context ns (demo_event (''ns/sub/'' @ name)) cx)
     = Inr (handler (demo_env ns) node f (Some name))"
  by (auto simp add: controller_def demo_env_def demo_context_def demo_event_def Let_def
      getprop_def nullish_def key_of_def)

lemma demo_chain_handler:
  "name \<noteq> ''error'' \<Longrightarrow>
   chain (demo_env ns) (demo_router ns dbg) (handler (demo_env ns) node f (Some name)) c
     = (case demo_call f node c of
          Raised e c1 \<Rightarrow> Thrown e c1
        | Returned ret c1 \<Rightarrow> Normal (if ret \<noteq> JUndefined then c1\<lparr>ctx_body := ret\<rparr> else c1))"
  by (simp add: chain_def handler_def demo_router_def wrapMiddleware_def Let_def
      http_options_def demo_http_def demo_env_def)

lemma compose_transparent:
  "\<forall>m\<in>set ms. \<forall>c k. invoke m c k = k c \<Longrightarrow> compose (ms @ rest) c = compose rest c"
  by (induction ms arbitrary: c) simp_all


section \<open>Match-gated middleware\<close>

text \<open>
  Claim C7. A middleware \<open>fn\<close> registered by \<open>use\<close> with options is stored as its
  wrapper. When the match predicate of the options is false on the current context,
  the wrapper is the next chain entry itself, so \<open>fn\<close> is not invoked; when it is
  true, \<open>fn\<close> is invoked with the context and the continuation.
\<close>

theorem wrapper_gates_on_match:
  assumes "use E r (Callable fn) options = Inr r'"
  shows "middleware r' = middleware r @ [wrapMiddleware E fn options]
       \<and> invoke (wrapMiddleware E fn options) c next =
           (if createRouteMatch E options c then invoke fn c next else next c)
       \<and> compose (wrapMiddleware E fn options # rest) c =
           (if createRouteMatch E options c then invoke fn c (compose rest)
            else compose rest c)"
proof -
  from assms have "r' = r\<lparr>middleware := middleware r @ [wrapMiddleware E fn options]\<rparr>"
    by (simp add: use_def)
  then have reg: "middleware r' = middleware r @ [wrapMiddleware E fn options]"
    by simp
  have gate: "\<And>k. invoke (wrapMiddleware E fn options) c k =
      (if createRouteMatch E options c then invoke fn c k else k c)"
    by (simp add: wrapMiddleware_def Let_def)
  from reg gate show ?thesis by simp
qed

theorem wrapper_gates_on_match_witness:
  "use (demo_env demo_ns) (demo_router demo_ns JUndefined) (Callable demo_thrower)
      (JObj [(''enable'', JBool False)])
     = Inr ((demo_router demo_ns JUndefined)\<lparr>middleware :=
          middleware (demo_router demo_ns JUndefined) @
            [wrapMiddleware (demo_env demo_ns) demo_thrower (JObj [(''enable'', JBool False)])]\<rparr>)
   \<and> invoke (wrapMiddleware (demo_env demo_ns) demo_thrower (JObj [(''enable'', JBool False)]))
        (demo_context demo_ns JNull JNull) Normal
     = Normal (demo_context demo_ns JNull JNull)
   \<and> invoke (wrapMiddleware (demo_env demo_ns) demo_thrower (JObj []))
        (demo_context demo_ns JNull JNull) Normal
     = Thrown (JStr ''ran'') (demo_context demo_ns JNull JNull)"
proof -
  let ?E = "demo_env demo_ns"
  let ?c = "demo_context demo_ns JNull JNull"
  let ?off = "JObj [(''enable'', JBool False)]"
  have u: "\<And>o'. use ?E (demo_router demo_ns JUndefined) (Callable demo_thrower) o'
     = Inr ((demo_router demo_ns JUndefined)\<lparr>middleware :=
          middleware (demo_router demo_ns JUndefined) @
            [wrapMiddleware ?E demo_thrower o']\<rparr>)"
    by (simp add: use_def)
  have off: "\<not> createRouteMatch ?E ?off ?c" and on: "createRouteMatch ?E (JObj []) ?c"
    by (simp_all add: demo_env_def)
  have ran: "invoke demo_thrower ?c Normal = Thrown (JStr ''ran'') ?c"
    by (simp add: demo_thrower_def)
  from wrapper_gates_on_match [OF u, of ?off ?c Normal "[]"] off
  have a: "invoke (wrapMiddleware ?E demo_thrower ?off) ?c Normal = Normal ?c"
    by simp
  from wrapper_gates_on_match [OF u, of "JObj []" ?c Normal "[]"] on ran
  have b: "invoke (wrapMiddleware ?E demo_thrower (JObj [])) ?c Normal = Thrown (JStr ''ran'') ?c"
    by simp
  from u [of ?off] a b show ?thesis by blast
qed


section \<open>Response and failure normalization\<close>

text \<open>
  Claim C9. When the chain fails with \<^verbatim>\<open>null\<close> or \<^verbatim>\<open>undefined\<close>, \<open>failed\<close> throws on its
  first property read, inside the callback of \<^verbatim>\<open>.catch\<close>: \<open>serve\<close> produces no
  normalized failure object, its promise is never resolved.
\<close>

theorem nullish_failure_not_normalized:
  assumes "controller E (serve_context E r event cx) = Inr h"
    and "chain E r h (serve_context E r event cx) = Thrown err c'"
    and "nullish err"
  shows "failed E r err =
           Inl (js_Error (stackTrace E) ''TypeError''
                  ''Cannot read properties of undefined (reading code)'')
       \<and> serve E r event cx =
           Unsettled (js_Error (stackTrace E) ''TypeError''
                  ''Cannot read properties of undefined (reading code)'')
       \<and> (\<forall>v. serve E r event cx \<noteq> Resolved v)"
proof -
  from \<open>nullish err\<close> have f: "failed E r err =
      Inl (js_Error (stackTrace E) ''TypeError''
             ''Cannot read properties of undefined (reading code)'')"
    by (simp add: failed_def)
  with assms(1,2) have s: "serve E r event cx =
      Unsettled (js_Error (stackTrace E) ''TypeError''
             ''Cannot read properties of undefined (reading code)'')"
    by (simp add: serve_unfold)
  from f s show ?thesis by simp
qed

theorem nullish_failure_not_normalized_witness:
  "nullish JUndefined
   \<and> serve (demo_env demo_ns) (demo_router demo_ns JUndefined) (demo_event ''ns/sub/undef'') JUndefined
     = Unsettled (JObj [(''name'', JStr ''TypeError''),
         (''message'', JStr ''Cannot read properties of undefined (reading code)''),
         (''stack'', JStr ''Error at <anonymous>'')])"
proof -
  let ?E = "demo_env demo_ns"
  let ?r = "demo_router demo_ns JUndefined"
  let ?ev = "demo_event ''ns/sub/undef''"
  let ?c = "demo_context demo_ns ?ev (JBool False)"
  have c: "serve_context ?E ?r ?ev JUndefined = ?c"
    by (simp add: js_or_def demo_event_def)
  have 1: "controller ?E (serve_context ?E ?r ?ev JUndefined)
      = Inr (handler ?E demo_sub 3 (Some ''undef''))"
    unfolding c using demo_controller_sub [of demo_ns demo_sub "''undef''" 3 "JBool False"]
    by (simp add: demo_ns_def demo_sub_def)
  have 2: "chain ?E ?r (handler ?E demo_sub 3 (Some ''undef'')) (serve_context ?E ?r ?ev JUndefined)
      = Thrown JUndefined ?c"
    unfolding c by (simp add: demo_chain_handler demo_call_def)
  have 3: "nullish JUndefined"
    by (simp add: nullish_def)
  have t: "stackTrace ?E = ''Error at <anonymous>''"
    by (simp add: demo_env_def)
  from nullish_failure_not_normalized [OF 1 2 3] 3 show ?thesis
    by (simp add: t js_Error_def)
qed

text \<open>
  Claim C5, as amended. When the chain fails with a value \<open>err\<close> other than \<^verbatim>\<open>null\<close> and
  \<^verbatim>\<open>undefined\<close>, \<open>serve\<close> resolves to an object whose code is \<open>err\<close>'s code attribute
  if that is truthy and the default failure code otherwise, whose message is \<open>err\<close>'s
  message attribute if that is truthy and \<open>err\<close> itself otherwise, and which has a stack
  key (\<open>err\<close>'s stack attribute if truthy, else the empty string) exactly when the debug
  flag is \<^verbatim>\<open>true\<close>.
\<close>

theorem failure_normalization:
  assumes "controller E (serve_context E r event cx) = Inr h"
    and "chain E r h (serve_context E r event cx) = Thrown err c'"
    and "\<not> nullish err"
  shows "serve E r event cx =
     Resolved (JObj (
       [(''code'', if truthy (lookup err ''code'') then lookup err ''code'' else FAILED_CODE E),
        (''message'', if truthy (lookup err ''message'') then lookup err ''message'' else err)] @
       (if opt_debug (config r) = JBool True
        then [(''stack'', if truthy (lookup err ''stack'') then lookup err ''stack'' else JStr [])]
        else [])))"
  using assms by (simp add: serve_unfold failed_def js_or_def)

theorem failure_normalization_witness:
  "\<not> nullish (JObj [(''code'', JNum 42), (''message'', JStr ''boom'')])
   \<and> serve (demo_env demo_ns) (demo_router demo_ns JUndefined) (demo_event ''ns/sub/bad'') JUndefined
       = Resolved (JObj [(''code'', JNum 42), (''message'', JStr ''boom'')])
   \<and> serve (demo_env demo_ns) (demo_router demo_ns (JBool True)) (demo_event ''ns/sub/bad'') JUndefined
       = Resolved (JObj [(''code'', JNum 42), (''message'', JStr ''boom''), (''stack'', JStr [])])"
proof -
  let ?E = "demo_env demo_ns"
  let ?ev = "demo_event ''ns/sub/bad''"
  let ?c = "demo_context demo_ns ?ev (JBool False)"
  let ?err = "JObj [(''code'', JNum 42), (''message'', JStr ''boom'')]"
  have c: "\<And>r. serve_context ?E r ?ev JUndefined = ?c"
    by (simp add: js_or_def demo_event_def)
  have 1: "\<And>r. controller ?E (serve_context ?E r ?ev JUndefined)
      = Inr (handler ?E demo_sub 1 (Some ''bad''))"
    unfolding c using demo_controller_sub [of demo_ns demo_sub "''bad''" 1 "JBool False"]
    by (simp add: demo_ns_def demo_sub_def)
  have 2: "\<And>dbg. chain ?E (demo_router demo_ns dbg) (handler ?E demo_sub 1 (Some ''bad''))
        (serve_context ?E (demo_router demo_ns dbg) ?ev JUndefined) = Thrown ?err ?c"
    unfolding c by (simp add: demo_chain_handler demo_call_def)
  have 3: "\<not> nullish ?err"
    by (simp add: nullish_def)
  have off: "opt_debug (config (demo_router demo_ns JUndefined)) \<noteq> JBool True"
    and on: "opt_debug (config (demo_router demo_ns (JBool True))) = JBool True"
    by (simp_all add: demo_router_def demo_options_def)
  from failure_normalization [OF 1 2 3, of JUndefined] off
  have a: "serve ?E (demo_router demo_ns JUndefined) ?ev JUndefined = Resolved ?err"
    by simp
  from failure_normalization [OF 1 2 3, of "JBool True"] on
  have b: "serve ?E (demo_router demo_ns (JBool True)) ?ev JUndefined =
      Resolved (JObj [(''code'', JNum 42), (''message'', JStr ''boom''), (''stack'', JStr [])])"
    by simp
  from 3 a b show ?thesis by blast
qed

text \<open>
  Claim C5 as stated fails: a handler that throws \<^verbatim>\<open>{code: 0, message: 'boom'}\<close> has a
  code attribute, and the response carries the default code instead of it.
\<close>

theorem falsy_code_replaced_by_default:
  "chain (demo_env demo_ns) (demo_router demo_ns JUndefined)
      (handler (demo_env demo_ns) demo_sub 4 (Some ''zero''))
      (demo_context demo_ns (demo_event ''ns/sub/zero'') (JBool False))
     = Thrown (JObj [(''code'', JNum 0), (''message'', JStr ''boom'')])
         (demo_context demo_ns (demo_event ''ns/sub/zero'') (JBool False))
   \<and> map_of [(''code'', JNum 0), (''message'', JStr ''boom'')] ''code'' = Some (JNum 0)
   \<and> serve (demo_env demo_ns) (demo_router demo_ns JUndefined) (demo_event ''ns/sub/zero'') JUndefined
       = Resolved (JObj [(''code'', JStr ''INTERNAL_SERVER_ERROR''), (''message'', JStr ''boom'')])
   \<and> lookup (JObj [(''code'', JStr ''INTERNAL_SERVER_ERROR''), (''message'', JStr ''boom'')]) ''code''
       \<noteq> JNum 0"
proof -
  let ?E = "demo_env demo_ns"
  let ?r = "demo_router demo_ns JUndefined"
  let ?ev = "demo_event ''ns/sub/zero''"
  let ?c = "demo_context demo_ns ?ev (JBool False)"
  let ?err = "JObj [(''code'', JNum 0), (''message'', JStr ''boom'')]"
  have c: "serve_context ?E ?r ?ev JUndefined = ?c"
    by (simp add: js_or_def demo_event_def)
  have 1: "controller ?E ?c = Inr (handler ?E demo_sub 4 (Some ''zero''))"
    using demo_controller_sub [of demo_ns demo_sub "''zero''" 4 "JBool False"]
    by (simp add: demo_ns_def demo_sub_def)
  have 2: "chain ?E ?r (handler ?E demo_sub 4 (Some ''zero'')) ?c = Thrown ?err ?c"
    by (simp add: demo_chain_handler demo_call_def)
  have 3: "failed ?E ?r ?err =
      Inr (JObj [(''code'', JStr ''INTERNAL_SERVER_ERROR''), (''message'', JStr ''boom'')])"
    by (simp add: failed_def nullish_def js_or_def demo_env_def demo_router_def demo_options_def)
  have 4: "serve ?E ?r ?ev JUndefined =
      Resolved (JObj [(''code'', JStr ''INTERNAL_SERVER_ERROR''), (''message'', JStr ''boom'')])"
    by (simp only: serve_unfold c 1 2 3 sum.case completion.case)
  from 2 4 show ?thesis by simp
qed

text \<open>
  Claim C6. When the chain completes, \<open>serve\<close> resolves to the body of the context,
  whatever it holds. The resolved handler assigns a returned value other than
  \<^verbatim>\<open>undefined\<close> to the body and leaves the body alone otherwise; so when every
  registered middleware only continues, \<open>serve\<close> resolves to the returned value, or to
  the body the handler left when it returned \<^verbatim>\<open>undefined\<close>.
\<close>

theorem success_returns_body:
  "(controller E (serve_context E r event cx) = Inr h \<longrightarrow>
      chain E r h (serve_context E r event cx) = Normal c' \<longrightarrow>
      serve E r event cx = Resolved (ctx_body c'))
   \<and> (call E method node c = Returned ret c1 \<longrightarrow>
      invoke (handler E node method methodName) c next =
        Normal (if ret = JUndefined then c1 else c1\<lparr>ctx_body := ret\<rparr>))
   \<and> (controller E (serve_context E r event cx) = Inr (handler E node method methodName) \<longrightarrow>
      methodName \<noteq> Some ''error'' \<longrightarrow>
      (\<forall>m\<in>set (middleware r). \<forall>c k. invoke m c k = k c) \<longrightarrow>
      call E method node (serve_context E r event cx) = Returned ret c1 \<longrightarrow>
      serve E r event cx = Resolved (if ret = JUndefined then ctx_body c1 else ret))"
proof (intro conjI impI)
  assume "controller E (serve_context E r event cx) = Inr h"
    and "chain E r h (serve_context E r event cx) = Normal c'"
  then show "serve E r event cx = Resolved (ctx_body c')"
    by (simp add: serve_unfold respond_def)
next
  assume "call E method node c = Returned ret c1"
  then show "invoke (handler E node method methodName) c next =
      Normal (if ret = JUndefined then c1 else c1\<lparr>ctx_body := ret\<rparr>)"
    by (simp add: handler_def)
next
  let ?h = "handler E node method methodName"
  let ?c = "serve_context E r event cx"
  assume res: "controller E ?c = Inr ?h"
    and name: "methodName \<noteq> Some ''error''"
    and transparent: "\<forall>m\<in>set (middleware r). \<forall>c k. invoke m c k = k c"
    and ret: "call E method node ?c = Returned ret c1"
  from name have "u_name ?h \<noteq> JStr ''error''"
    by (cases methodName) (simp_all add: handler_def)
  then have "chain E r ?h ?c = compose (middleware r @ [?h]) ?c"
    by (simp add: chain_def)
  also from transparent have "\<dots> = compose [?h] ?c"
    by (rule compose_transparent)
  also from ret have "\<dots> = Normal (if ret = JUndefined then c1 else c1\<lparr>ctx_body := ret\<rparr>)"
    by (simp add: handler_def)
  finally show "serve E r event cx = Resolved (if ret = JUndefined then ctx_body c1 else ret)"
    using res by (simp add: serve_unfold respond_def)
qed

theorem success_returns_body_witness:
  "serve (demo_env demo_ns) (demo_router demo_ns JUndefined) (demo_event ''ns/sub/ok'') JUndefined
     = Resolved (JStr ''V'')
   \<and> serve (demo_env demo_ns) (demo_router demo_ns JUndefined) (demo_event ''ns/sub/none'') JUndefined
     = Resolved JUndefined"
proof -
  let ?E = "demo_env demo_ns"
  let ?r = "demo_router demo_ns JUndefined"
  have c: "\<And>a. serve_context ?E ?r (demo_event a) JUndefined
      = demo_context demo_ns (demo_event a) (JBool False)"
    by (simp add: js_or_def demo_event_def)
  have ok: "controller ?E (serve_context ?E ?r (demo_event ''ns/sub/ok'') JUndefined)
      = Inr (handler ?E demo_sub 0 (Some ''ok''))"
    unfolding c using demo_controller_sub [of demo_ns demo_sub "''ok''" 0 "JBool False"]
    by (simp add: demo_ns_def demo_sub_def)
  have none: "controller ?E (serve_context ?E ?r (demo_event ''ns/sub/none'') JUndefined)
      = Inr (handler ?E demo_sub 2 (Some ''none''))"
    unfolding c using demo_controller_sub [of demo_ns demo_sub "''none''" 2 "JBool False"]
    by (simp add: demo_ns_def demo_sub_def)
  have tr: "\<forall>m\<in>set (middleware ?r). \<forall>c k. invoke m c k = k c"
    by (simp add: demo_router_def wrapMiddleware_def Let_def demo_http_def)
  have call0: "\<And>c. call ?E 0 demo_sub c = Returned (JStr ''V'') c"
    and call2: "\<And>c. call ?E 2 demo_sub c = Returned JUndefined c"
    by (simp_all add: demo_env_def demo_call_def)
  have body: "\<And>ev cx. ctx_body (demo_context demo_ns ev cx) = JUndefined"
    by (simp add: demo_context_def)
  from success_returns_body [of ?E ?r "demo_event ''ns/sub/ok''" JUndefined _ _ 0 demo_sub _ "JStr ''V''" _ "Some ''ok''"]
    ok tr call0
  have a: "serve ?E ?r (demo_event ''ns/sub/ok'') JUndefined = Resolved (JStr ''V'')"
    by simp
  from success_returns_body [of ?E ?r "demo_event ''ns/sub/none''" JUndefined _ _ 2 demo_sub _ JUndefined _ "Some ''none''"]
    none tr call2 body
  have b: "serve ?E ?r (demo_event ''ns/sub/none'') JUndefined = Resolved JUndefined"
    by simp
  from a b show ?thesis by blast
qed


section \<open>The error chain\<close>

text \<open>
  The synthetic handler is determined by its message, and the wrapper of a resolved
  method is never the synthetic handler.
\<close>

lemma error_eq_iff [simp]: "error E m = error E m' \<longleftrightarrow> m = m'"
proof
  assume "error E m = error E m'"
  then have "invoke (error E m) c Normal = invoke (error E m') c Normal" for c
    by simp
  then show "m = m'"
    by (simp add: error_def js_Error_def)
qed simp

lemma handler_neq_error [simp]: "handler E node f mn \<noteq> error E m"
proof
  assume "handler E node f mn = error E m"
  then have "fn_name (handler E node f mn) = fn_name (error E m)"
    by simp
  then show False
    by (simp add: handler_def error_def)
qed

text \<open>Every message of a synthetic handler that \<open>controller\<close> returns is non-empty.\<close>

lemma controller_error_message:
  "controller E c = Inr (error E m) \<Longrightarrow> m \<noteq> []"
  by (auto simp add: controller_def Let_def split: option.splits if_splits sum.splits)

text \<open>
  When resolution yields the synthetic handler, the chain is the transport middleware
  followed by that handler; its failure is normalized with the default code.
\<close>

lemma chain_error:
  "chain E r (error E m) = compose [http E, error E m]"
  by (simp add: chain_def error_def)

lemma compose_error:
  "compose [error E m] c = Thrown (js_Error (stackTrace E) ''Error'' m) c"
  by (simp add: error_def)

lemma failed_error:
  "m \<noteq> [] \<Longrightarrow> failed E r (js_Error (stackTrace E) ''Error'' m) = Inr (failure_value E r m)"
  by (simp add: failed_def failure_value_def js_Error_def nullish_def js_or_def)

lemma serve_error_resolution:
  assumes res: "controller E (serve_context E r event cx) = Inr (error E m)"
    and "m \<noteq> []"
    and pass: "passes_failure (http E) (serve_context E r event cx)"
  shows "serve E r event cx = Resolved (failure_value E r m)"
proof -
  let ?c = "serve_context E r event cx"
  let ?err = "js_Error (stackTrace E) ''Error'' m"
  from pass obtain c1 where
    c1: "\<And>k e c2. k c1 = Thrown e c2 \<Longrightarrow> invoke (http E) ?c k = Thrown e c2"
    unfolding passes_failure_def by blast
  have "chain E r (error E m) ?c = invoke (http E) ?c (compose [error E m])"
    by (simp add: chain_error)
  also have "\<dots> = Thrown ?err c1"
    by (rule c1) (rule compose_error)
  finally have "chain E r (error E m) ?c = Thrown ?err c1" .
  with res failed_error [OF \<open>m \<noteq> []\<close>] show ?thesis
    by (simp add: serve_unfold)
qed

lemma serve_ignores_middleware_on_error:
  assumes "controller E (serve_context E r event cx) = Inr h" and "u_name h = JStr ''error''"
  shows "serve E (r\<lparr>middleware := ms\<rparr>) event cx = serve E r event cx"
proof -
  have "failed E (r\<lparr>middleware := ms\<rparr>) = failed E r"
    by (simp add: failed_def fun_eq_iff)
  with assms show ?thesis
    by (simp add: serve_unfold serve_context_def chain_def split: completion.splits)
qed

lemma segments_Nil [simp]: "segments [] = []"
  by (simp add: segments_def)

lemma controller_absent:
  "parseAction E (ctx_event c) = None \<or> parseAction E (ctx_event c) = Some [] \<Longrightarrow>
   controller E c = Inr (error E ''action is required'')"
  by (auto simp add: controller_def)

lemma controller_single:
  \<open>parseAction E (ctx_event c) = Some a \<Longrightarrow> length (segments a) = 1 \<Longrightarrow>
   controller E c = Inr (error E ''action must contain "/"'')\<close>
  by (cases "a = []") (simp_all add: controller_def segments_def Let_def)

lemma demo_passes_failure: "passes_failure (http (demo_env ns)) c"
  unfolding passes_failure_def by (rule exI [of _ c]) (simp add: demo_env_def demo_http_def)

text \<open>
  The part of claim C4 that holds. Whenever controller resolution yields the synthetic
  error handler, the chain is the transport middleware followed by that handler: the
  outcome of \<open>serve\<close> is the same whatever the registered middleware sequence is, and
  \<open>serve\<close> resolves to the failure object of the handler's message. An absent or empty
  action gives the message \<^verbatim>\<open>action is required\<close>, an action of one segment the
  message \<^verbatim>\<open>action must contain "/"\<close>.
\<close>

theorem resolution_failure_runs_error_chain:
  assumes pass: "passes_failure (http E) (serve_context E r event cx)"
  shows
  \<open>(controller E (serve_context E r event cx) = Inr (error E m) \<longrightarrow>
       chain E r (error E m) = compose [http E, error E m]
     \<and> (\<forall>ms. serve E (r\<lparr>middleware := ms\<rparr>) event cx = serve E r event cx)
     \<and> serve E r event cx = Resolved (failure_value E r m))
   \<and> (parseAction E (ctx_event (serve_context E r event cx)) = None
       \<or> parseAction E (ctx_event (serve_context E r event cx)) = Some [] \<longrightarrow>
       controller E (serve_context E r event cx) = Inr (error E ''action is required'')
     \<and> (\<forall>ms. serve E (r\<lparr>middleware := ms\<rparr>) event cx = serve E r event cx)
     \<and> serve E r event cx = Resolved (failure_value E r ''action is required''))
   \<and> (\<forall>a. parseAction E (ctx_event (serve_context E r event cx)) = Some a \<longrightarrow>
       length (segments a) = 1 \<longrightarrow>
       controller E (serve_context E r event cx) = Inr (error E ''action must contain "/"'')
     \<and> (\<forall>ms. serve E (r\<lparr>middleware := ms\<rparr>) event cx = serve E r event cx)
     \<and> serve E r event cx = Resolved (failure_value E r ''action must contain "/"''))\<close>
proof -
  let ?c = "serve_context E r event cx"
  have general: "chain E r (error E m) = compose [http E, error E m]
     \<and> (\<forall>ms. serve E (r\<lparr>middleware := ms\<rparr>) event cx = serve E r event cx)
     \<and> serve E r event cx = Resolved (failure_value E r m)"
    if res: "controller E ?c = Inr (error E m)" for m
  proof -
    from res have ne: "m \<noteq> []"
      by (rule controller_error_message)
    have "u_name (error E m) = JStr ''error''"
      by (simp add: error_def)
    with res have "\<forall>ms. serve E (r\<lparr>middleware := ms\<rparr>) event cx = serve E r event cx"
      by (simp add: serve_ignores_middleware_on_error)
    with res ne pass show ?thesis
      by (simp add: chain_error serve_error_resolution)
  qed
  have absent: "controller E ?c = Inr (error E ''action is required'')
     \<and> (\<forall>ms. serve E (r\<lparr>middleware := ms\<rparr>) event cx = serve E r event cx)
     \<and> serve E r event cx = Resolved (failure_value E r ''action is required'')"
    if "parseAction E (ctx_event ?c) = None \<or> parseAction E (ctx_event ?c) = Some []"
    using general [OF controller_absent [OF that]] controller_absent [OF that] by simp
  have single: \<open>controller E ?c = Inr (error E ''action must contain "/"'')
     \<and> (\<forall>ms. serve E (r\<lparr>middleware := ms\<rparr>) event cx = serve E r event cx)
     \<and> serve E r event cx = Resolved (failure_value E r ''action must contain "/"'')\<close>
    if "parseAction E (ctx_event ?c) = Some a" and "length (segments a) = 1" for a
    using general [OF controller_single [OF that]] controller_single [OF that] by simp
  from general absent single show ?thesis
    by blast
qed

theorem resolution_failure_runs_error_chain_witness:
  \<open>passes_failure (http (demo_env demo_ns))
      (serve_context (demo_env demo_ns) (demo_router demo_ns JUndefined) (JObj []) JUndefined)
   \<and> parseAction (demo_env demo_ns)
       (ctx_event (serve_context (demo_env demo_ns) (demo_router demo_ns JUndefined) (JObj []) JUndefined))
       = None
   \<and> serve (demo_env demo_ns) (demo_router demo_ns JUndefined) (JObj []) JUndefined
       = Resolved (JObj [(''code'', JStr ''INTERNAL_SERVER_ERROR''),
                         (''message'', JStr ''action is required'')])
   \<and> serve (demo_env demo_ns)
        ((demo_router demo_ns JUndefined)\<lparr>middleware := [demo_thrower]\<rparr>) (JObj []) JUndefined
       = Resolved (JObj [(''code'', JStr ''INTERNAL_SERVER_ERROR''),
                         (''message'', JStr ''action is required'')])
   \<and> segments ''ns'' = [''ns'']
   \<and> serve (demo_env demo_ns) (demo_router demo_ns JUndefined) (demo_event ''ns'') JUndefined
       = Resolved (JObj [(''code'', JStr ''INTERNAL_SERVER_ERROR''),
                         (''message'', JStr ''action must contain "/"'')])\<close>
proof -
  let ?E = "demo_env demo_ns"
  let ?r = "demo_router demo_ns JUndefined"
  have p: "\<And>ev. passes_failure (http ?E) (serve_context ?E ?r ev JUndefined)"
    by (rule demo_passes_failure)
  have none: "parseAction ?E (ctx_event (serve_context ?E ?r (JObj []) JUndefined)) = None"
    by (simp only: demo_serve_context) (simp add: demo_env_def demo_context_def js_or_def)
  have one: "parseAction ?E (ctx_event (serve_context ?E ?r (demo_event ''ns'') JUndefined)) = Some ''ns''"
    by (simp only: demo_serve_context)
      (simp add: demo_env_def demo_context_def js_or_def demo_event_def)
  have seg: "segments ''ns'' = [''ns'']"
    by (simp add: segments_def)
  have fv: "\<And>m. failure_value ?E ?r m =
      JObj [(''code'', JStr ''INTERNAL_SERVER_ERROR''), (''message'', JStr m)]"
    by (simp add: failure_value_def demo_env_def demo_router_def demo_options_def)
  from resolution_failure_runs_error_chain [OF p, of "JObj []"] none
  have a: "serve ?E ?r (JObj []) JUndefined = Resolved (failure_value ?E ?r ''action is required'')"
    and b: "serve ?E (?r\<lparr>middleware := [demo_thrower]\<rparr>) (JObj []) JUndefined
      = Resolved (failure_value ?E ?r ''action is required'')"
    by simp_all
  from resolution_failure_runs_error_chain [OF p, of "demo_event ''ns''"] one seg
  have c: \<open>serve ?E ?r (demo_event ''ns'') JUndefined
      = Resolved (failure_value ?E ?r ''action must contain "/"'')\<close>
    by simp
  from p [of "JObj []"] none a b seg c show ?thesis
    unfolding fv by blast
qed


section \<open>The middleware sequence\<close>

text \<open>
  Registration only appends: \<open>use_each\<close> adds the wrappers of the configured entries in
  order, after what is already there, and \<open>initMiddleware\<close> registers the transport
  middleware before them.
\<close>

lemma use_each_appends:
  "use_each E r entries = Inr r' \<Longrightarrow>
   middleware r' = middleware r @ wrapped_entries E entries"
proof (induction entries arbitrary: r)
  case Nil
  then show ?case by (simp add: wrapped_entries_def)
next
  case (Cons entry entries)
  obtain a options where entry: "entry = (a, options)"
    by (cases entry)
  show ?case
  proof (cases a)
    case (Callable f)
    let ?r1 = "r\<lparr>middleware := middleware r @ [wrapMiddleware E f options]\<rparr>"
    from Cons.prems entry Callable have "use_each E ?r1 entries = Inr r'"
      by (simp add: use_def)
    then have "middleware r' = middleware ?r1 @ wrapped_entries E entries"
      by (rule Cons.IH)
    with entry Callable show ?thesis
      by (simp add: wrapped_entries_def)
  next
    case (NotCallable v)
    with Cons.prems entry show ?thesis
      by (simp add: use_def)
  qed
qed

lemma initMiddleware_middleware:
  assumes "initMiddleware E r0 mws = Inr r"
  shows "middleware r = middleware r0 @ wrapMiddleware E (http E) http_options #
           wrapped_entries E (case mws of None \<Rightarrow> [] | Some entries \<Rightarrow> entries)"
proof (cases mws)
  case None
  with assms show ?thesis
    by (auto simp add: initMiddleware_def use_def wrapped_entries_def)
next
  case (Some entries)
  let ?r1 = "r0\<lparr>middleware := middleware r0 @ [wrapMiddleware E (http E) http_options]\<rparr>"
  from assms Some have "use_each E ?r1 entries = Inr r"
    by (simp add: initMiddleware_def use_def)
  then have "middleware r = middleware ?r1 @ wrapped_entries E entries"
    by (rule use_each_appends)
  with Some show ?thesis
    by simp
qed

lemma new_Router_middleware:
  assumes "new_Router E cfg = Inr r"
  shows "middleware r = wrapMiddleware E (http E) http_options #
           wrapped_entries E
             (case (case cfg of None \<Rightarrow> None | Some options \<Rightarrow> opt_middleware options) of
                None \<Rightarrow> [] | Some entries \<Rightarrow> entries)"
proof -
  let ?config = "case cfg of None \<Rightarrow> empty_options | Some o' \<Rightarrow> o'"
  have mw: "opt_middleware ?config =
      (case cfg of None \<Rightarrow> None | Some options \<Rightarrow> opt_middleware options)"
    by (cases cfg) (simp_all add: empty_options_def)
  from assms obtain r0 where "middleware r0 = []"
    and "initMiddleware E r0 (opt_middleware ?config) = Inr r"
    unfolding new_Router_def Let_def
    by (metis Router.select_convs(2))
  with initMiddleware_middleware [of E r0 "opt_middleware ?config" r] mw show ?thesis
    by simp
qed

text \<open>
  Construction on the example deployment: a configured callable entry is registered
  after the transport middleware, and a configured entry that is not a function makes
  the constructor throw.
\<close>

lemma demo_router_configured:
  "new_Router (demo_env ns)
     (Some \<lparr>opt_debug = JUndefined, opt_baseDir = None,
            opt_middleware = Some [(Callable demo_thrower, JObj [(''enable'', JBool False)])]\<rparr>)
   = Inr \<lparr>config = \<lparr>opt_debug = JUndefined, opt_baseDir = None,
            opt_middleware = Some [(Callable demo_thrower, JObj [(''enable'', JBool False)])]\<rparr>,
          middleware = [wrapMiddleware (demo_env ns) (http (demo_env ns)) http_options,
                        wrapMiddleware (demo_env ns) demo_thrower (JObj [(''enable'', JBool False)])],
          serviceDir = ''/app/service'',
          controllerDir = ''/app/controller''\<rparr>"
  by (simp add: new_Router_def initMiddleware_def use_def demo_env_def SERVICE_DIR_def
      CONTROLLER_DIR_def Let_def)

lemma demo_router_refused:
  "new_Router (demo_env ns)
     (Some \<lparr>opt_debug = JUndefined, opt_baseDir = None,
            opt_middleware = Some [(NotCallable (JNum 1), JUndefined)]\<rparr>)
   = Inl (js_Error ''Error at <anonymous>'' ''TypeError'' ''middleware must be a function'')"
  by (simp add: new_Router_def initMiddleware_def use_def demo_env_def SERVICE_DIR_def
      CONTROLLER_DIR_def Let_def)

text \<open>
  The part of claim C8 that holds. A constructed router has the wrapper of the
  transport middleware as the first entry of its middleware sequence, followed by the
  wrappers of the configured entries. A call of \<open>use\<close> appends one entry at the end and so keeps that first
  entry. On an invocation whose chain is built from a router with that first entry,
  the chain starts by invoking the transport middleware, in the error chain and in
  the full chain alike (the match predicate of the options \<^verbatim>\<open>{name: 'http'}\<close>, which
  carry no criterion, accepts the context).
\<close>

theorem transport_middleware_first:
  "(new_Router E cfg = Inr r \<longrightarrow>
      middleware r = wrapMiddleware E (http E) http_options #
        wrapped_entries E
          (case (case cfg of None \<Rightarrow> None | Some options \<Rightarrow> opt_middleware options) of
             None \<Rightarrow> [] | Some entries \<Rightarrow> entries))
   \<and> (use E r fn options = Inr r' \<longrightarrow>
        (\<exists>m. middleware r' = middleware r @ [m])
      \<and> (\<forall>rest. middleware r = wrapMiddleware E (http E) http_options # rest \<longrightarrow>
             middleware r' = wrapMiddleware E (http E) http_options # rest @ [last (middleware r')]))
   \<and> (middleware r = wrapMiddleware E (http E) http_options # rest \<longrightarrow>
        createRouteMatch E http_options c \<longrightarrow>
        chain E r h c =
          invoke (http E) c
            (if u_name h = JStr ''error'' then compose [h] else compose (rest @ [h])))"
proof (intro conjI impI)
  assume "new_Router E cfg = Inr r"
  then show "middleware r = wrapMiddleware E (http E) http_options #
        wrapped_entries E
          (case (case cfg of None \<Rightarrow> None | Some options \<Rightarrow> opt_middleware options) of
             None \<Rightarrow> [] | Some entries \<Rightarrow> entries)"
    by (rule new_Router_middleware)
next
  assume u: "use E r fn options = Inr r'"
  then obtain f where "fn = Callable f"
    by (cases fn) (simp_all add: use_def)
  with u have app: "middleware r' = middleware r @ [wrapMiddleware E f options]"
    by (auto simp add: use_def)
  then show "\<exists>m. middleware r' = middleware r @ [m]"
    by blast
  from app show "\<forall>rest. middleware r = wrapMiddleware E (http E) http_options # rest \<longrightarrow>
      middleware r' = wrapMiddleware E (http E) http_options # rest @ [last (middleware r')]"
    by simp
next
  assume first: "middleware r = wrapMiddleware E (http E) http_options # rest"
    and match: "createRouteMatch E http_options c"
  from match have "invoke (wrapMiddleware E (http E) http_options) c k = invoke (http E) c k" for k
    by (simp add: wrapMiddleware_def Let_def)
  with first show "chain E r h c =
      invoke (http E) c (if u_name h = JStr ''error'' then compose [h] else compose (rest @ [h]))"
    by (simp add: chain_def)
qed

theorem transport_middleware_first_witness:
  "new_Router (demo_env demo_ns) (Some (demo_options JUndefined)) = Inr (demo_router demo_ns JUndefined)
   \<and> middleware (demo_router demo_ns JUndefined)
       = [wrapMiddleware (demo_env demo_ns) (http (demo_env demo_ns)) http_options]
   \<and> use (demo_env demo_ns) (demo_router demo_ns JUndefined) (Callable demo_thrower) JUndefined
       = Inr ((demo_router demo_ns JUndefined)\<lparr>middleware :=
            [wrapMiddleware (demo_env demo_ns) (http (demo_env demo_ns)) http_options,
             wrapMiddleware (demo_env demo_ns) demo_thrower JUndefined]\<rparr>)
   \<and> createRouteMatch (demo_env demo_ns) http_options (demo_context demo_ns JNull JNull)
   \<and> chain (demo_env demo_ns)
        ((demo_router demo_ns JUndefined)\<lparr>middleware :=
            [wrapMiddleware (demo_env demo_ns) (http (demo_env demo_ns)) http_options,
             wrapMiddleware (demo_env demo_ns) demo_thrower JUndefined]\<rparr>)
        (handler (demo_env demo_ns) demo_sub 0 (Some ''ok'')) (demo_context demo_ns JNull JNull)
       = invoke (http (demo_env demo_ns)) (demo_context demo_ns JNull JNull)
           (compose [wrapMiddleware (demo_env demo_ns) demo_thrower JUndefined,
                     handler (demo_env demo_ns) demo_sub 0 (Some ''ok'')])"
proof -
  let ?E = "demo_env demo_ns"
  let ?r = "demo_router demo_ns JUndefined"
  let ?w = "wrapMiddleware ?E (http ?E) http_options"
  let ?t = "wrapMiddleware ?E demo_thrower JUndefined"
  let ?r' = "?r\<lparr>middleware := [?w, ?t]\<rparr>"
  let ?h = "handler ?E demo_sub 0 (Some ''ok'')"
  let ?c = "demo_context demo_ns JNull JNull"
  have h: "http ?E = demo_http"
    by (simp add: demo_env_def)
  have new: "new_Router ?E (Some (demo_options JUndefined)) = Inr ?r"
    by (rule demo_router_new)
  have mw: "middleware ?r = [?w]"
    by (simp add: demo_router_def h)
  have u: "use ?E ?r (Callable demo_thrower) JUndefined = Inr ?r'"
    by (simp add: use_def mw)
  have m: "createRouteMatch ?E http_options ?c"
    by (simp add: demo_env_def http_options_def)
  have n: "u_name ?h \<noteq> JStr ''error''"
    by (simp add: handler_def)
  have mw': "middleware ?r' = ?w # [?t]"
    by simp
  from transport_middleware_first [of ?E _ ?r' _ _ _ "[?t]" ?c ?h] mw' m n
  have "chain ?E ?r' ?h ?c = invoke (http ?E) ?c (compose [?t, ?h])"
    by simp
  with new mw u m show ?thesis
    by blast
qed


section \<open>Controller resolution\<close>

lemma segments_nonempty: "segments action \<noteq> [] \<Longrightarrow> action \<noteq> []"
  by (cases action) simp_all

text \<open>
  Claim C1 fails on the code. The loop over the namespace segments reads a property
  of the node it has reached without testing that node; the test for a missing node
  comes after the loop. With three or more segments and the first one missing from
  the handler tree, the second read throws a \<^verbatim>\<open>TypeError\<close> in the body of \<open>serve\<close>,
  before the promise with the catch is built: \<open>serve\<close> rejects.
\<close>

theorem missing_first_segment_rejects:
  assumes "parseAction E (ctx_event (serve_context E r event cx)) = Some action"
    and "segments action = p # q # rest"
    and "rest \<noteq> []"
    and "\<not> nullish (ctx_controller (serve_context E r event cx))"
    and "nullish (lookup (ctx_controller (serve_context E r event cx)) p)"
  shows "serve E r event cx =
     Rejected (js_Error (stackTrace E) ''TypeError''
        (''Cannot read properties of undefined (reading '' @ q @ '')''))"
proof -
  let ?c = "serve_context E r event cx"
  let ?e = "js_Error (stackTrace E) ''TypeError''
        (''Cannot read properties of undefined (reading '' @ q @ '')'')"
  from assms(2) have ne: "action \<noteq> []"
    by (intro segments_nonempty) simp
  from assms(3) have bl: "butlast (p # q # rest) = p # q # butlast rest"
    by simp
  from assms(4,5) have "traverse (stackTrace E) (ctx_controller ?c) (p # q # butlast rest) = Inl ?e"
    by (simp add: getprop_def)
  with assms(1,2) ne bl have "controller E ?c = Inl ?e"
    by (simp add: controller_def Let_def segments_def [symmetric])
  then show ?thesis
    by (simp add: serve_unfold)
qed

theorem missing_first_segment_rejects_witness:
  "segments ''nons/sub/doThing'' = [''nons'', ''sub'', ''doThing'']
   \<and> \<not> nullish demo_ns \<and> nullish (lookup demo_ns ''nons'')
   \<and> serve (demo_env demo_ns) (demo_router demo_ns JUndefined)
        (demo_event ''nons/sub/doThing'') JUndefined
     = Rejected (JObj [(''name'', JStr ''TypeError''),
         (''message'', JStr ''Cannot read properties of undefined (reading sub)''),
         (''stack'', JStr ''Error at <anonymous>'')])"
proof -
  let ?E = "demo_env demo_ns"
  let ?r = "demo_router demo_ns JUndefined"
  let ?ev = "demo_event ''nons/sub/doThing''"
  let ?c = "serve_context ?E ?r ?ev JUndefined"
  have 1: "parseAction ?E (ctx_event ?c) = Some ''nons/sub/doThing''"
    by (simp only: demo_serve_context)
      (simp add: demo_env_def demo_context_def js_or_def demo_event_def)
  have 2: "segments ''nons/sub/doThing'' = ''nons'' # ''sub'' # [''doThing'']"
    by (simp add: segments_def)
  have 3: "[''doThing''] \<noteq> []"
    by simp
  have root: "ctx_controller ?c = demo_ns"
    by (simp add: demo_context_def)
  have 4: "\<not> nullish (ctx_controller ?c)"
    unfolding root by (simp add: nullish_def demo_ns_def)
  have 5: "nullish (lookup (ctx_controller ?c) ''nons'')"
    unfolding root by (simp add: nullish_def demo_ns_def)
  have t: "stackTrace ?E = ''Error at <anonymous>''"
    by (simp add: demo_env_def)
  from missing_first_segment_rejects [OF 1 2 3 4 5] 2 4 5 show ?thesis
    unfolding root by (simp add: t js_Error_def)
qed

text \<open>
  The resolution of an action \<^verbatim>\<open>pre/name\<close> whose method name has no regular-expression
  syntax character, once the traversal of the namespace segments has reached a node.
\<close>

lemma replace_tail_suffix:
  assumes "\<not> list_ex regexp_syntax name" and "CHR ''$'' \<notin> set replacement"
  shows "replace_tail E (pre @ ''/'' @ name) (Some name) replacement = Inr (pre @ replacement)"
proof -
  have "\<not> regexp_syntax CHR ''/''"
    by (simp add: regexp_syntax_def)
  with assms show ?thesis
    by (simp add: replace_tail_def key_of_def Let_def)
qed

lemma dollar_syntax: "\<not> list_ex regexp_syntax name \<Longrightarrow> CHR ''$'' \<notin> set (''.'' @ name)"
  by (auto simp add: list_ex_iff regexp_syntax_def)

lemma controller_resolved_path:
  assumes act: "parseAction E (ctx_event c) = Some (pre @ ''/'' @ name)"
    and seg: "segments (pre @ ''/'' @ name) = path @ [name]"
    and path: "path \<noteq> []"
    and plain: "\<not> list_ex regexp_syntax name"
    and node: "traverse (stackTrace E) (ctx_controller c) path = Inr node"
  shows "controller E c =
     (if \<not> truthy node then Inr (error E (''controller/'' @ pre @ '' not found''))
      else case callable (lookup node name) of
             None \<Rightarrow> Inr (error E (''controller/'' @ pre @ ''.'' @ name @ '' is not a function''))
           | Some method \<Rightarrow> Inr (handler E node method (Some name)))"
proof -
  from path have len: "length (path @ [name]) \<noteq> 1"
    by (cases path) simp_all
  have r1: "replace_tail E (pre @ ''/'' @ name) (Some name) [] = Inr pre"
    using replace_tail_suffix [OF plain, of "[]" E pre] by simp
  have r2: "replace_tail E (pre @ ''/'' @ name) (Some name) (''.'' @ name) = Inr (pre @ ''.'' @ name)"
    using replace_tail_suffix [OF plain dollar_syntax [OF plain], of E pre] by simp
  from act seg len node r1 r2 show ?thesis
    by (simp add: controller_def Let_def segments_def [symmetric] key_of_def split: option.split)
qed

text \<open>
  When the traversal ends on a missing (falsy) node, the failure is
  \<^verbatim>\<open>controller/pre not found\<close>: the part of claim C3 that holds, for a namespace in which
  every node before the last one exists.
\<close>

lemma final_node_missing_not_found:
  assumes "parseAction E (ctx_event (serve_context E r event cx)) = Some (pre @ ''/'' @ name)"
    and "segments (pre @ ''/'' @ name) = path @ [name]"
    and "path \<noteq> []"
    and "\<not> list_ex regexp_syntax name"
    and "traverse (stackTrace E) (ctx_controller (serve_context E r event cx)) path = Inr node"
    and "\<not> truthy node"
    and "passes_failure (http E) (serve_context E r event cx)"
  shows "serve E r event cx = Resolved (failure_value E r (''controller/'' @ pre @ '' not found''))"
proof -
  from controller_resolved_path [OF assms(1-5)] assms(6)
  have "controller E (serve_context E r event cx) = Inr (error E (''controller/'' @ pre @ '' not found''))"
    by simp
  then show ?thesis
    using assms(7) by (intro serve_error_resolution) simp_all
qed

text \<open>
  Claim C3 fails on the code when the missing node is not the last one: for the action
  \<^verbatim>\<open>ns/sub/doThing\<close> and a handler namespace without \<^verbatim>\<open>ns\<close>, the first lookup yields
  \<^verbatim>\<open>undefined\<close>, the lookup of \<^verbatim>\<open>sub\<close> in it throws, and \<open>serve\<close> rejects with the
  \<^verbatim>\<open>TypeError\<close> instead of resolving to \<^verbatim>\<open>controller/ns/sub not found\<close>.
\<close>

theorem missing_intermediate_node_throws:
  "parseAction (demo_env (JObj []))
      (ctx_event (serve_context (demo_env (JObj [])) (demo_router (JObj []) JUndefined)
         (demo_event ''ns/sub/doThing'') JUndefined))
     = Some ''ns/sub/doThing''
   \<and> lookup (JObj []) ''ns'' = JUndefined
   \<and> serve (demo_env (JObj [])) (demo_router (JObj []) JUndefined)
        (demo_event ''ns/sub/doThing'') JUndefined
     = Rejected (JObj [(''name'', JStr ''TypeError''),
         (''message'', JStr ''Cannot read properties of undefined (reading sub)''),
         (''stack'', JStr ''Error at <anonymous>'')])"
proof -
  let ?E = "demo_env (JObj [])"
  let ?r = "demo_router (JObj []) JUndefined"
  let ?ev = "demo_event ''ns/sub/doThing''"
  let ?c = "demo_context (JObj []) ?ev (JBool False)"
  have c: "serve_context ?E ?r ?ev JUndefined = ?c"
    by (simp add: js_or_def demo_event_def)
  have 1: "parseAction ?E (ctx_event ?c) = Some ''ns/sub/doThing''"
    by (simp add: demo_env_def demo_context_def demo_event_def)
  have 2: "controller ?E ?c = Inl (js_Error ''Error at <anonymous>'' ''TypeError''
      ''Cannot read properties of undefined (reading sub)'')"
    by (simp add: controller_def demo_env_def demo_context_def demo_event_def Let_def
        getprop_def nullish_def)
  have p: "parseAction ?E (ctx_event (serve_context ?E ?r ?ev JUndefined)) = Some ''ns/sub/doThing''"
    by (simp only: c 1)
  have l: "lookup (JObj []) ''ns'' = JUndefined"
    by simp
  have "serve ?E ?r ?ev JUndefined = Rejected (js_Error ''Error at <anonymous>'' ''TypeError''
      ''Cannot read properties of undefined (reading sub)'')"
    by (simp only: serve_unfold c 2 sum.case)
  then have s: "serve ?E ?r ?ev JUndefined
     = Rejected (JObj [(''name'', JStr ''TypeError''),
         (''message'', JStr ''Cannot read properties of undefined (reading sub)''),
         (''stack'', JStr ''Error at <anonymous>'')])"
    by (simp only: js_Error_def)
  from p l s show ?thesis
    by blast
qed

text \<open>
  Claim C2, as amended. For an action \<^verbatim>\<open>pre/name\<close> whose namespace path leads to a
  truthy node on which \<^verbatim>\<open>name\<close> is not callable, \<open>serve\<close> resolves to a failure whose
  message is \<^verbatim>\<open>controller/pre.name is not a function\<close>: the action with only its final
  \<^verbatim>\<open>/name\<close> replaced by \<^verbatim>\<open>.name\<close>. For \<^verbatim>\<open>ns/sub/doThing\<close> the message is
  \<^verbatim>\<open>controller/ns/sub.doThing is not a function\<close>.
\<close>

theorem not_a_function_message:
  assumes "parseAction E (ctx_event (serve_context E r event cx)) = Some (pre @ ''/'' @ name)"
    and "segments (pre @ ''/'' @ name) = path @ [name]"
    and "path \<noteq> []"
    and "\<not> list_ex regexp_syntax name"
    and "traverse (stackTrace E) (ctx_controller (serve_context E r event cx)) path = Inr node"
    and "truthy node"
    and "callable (lookup node name) = None"
    and "passes_failure (http E) (serve_context E r event cx)"
  shows "serve E r event cx =
     Resolved (failure_value E r (''controller/'' @ pre @ ''.'' @ name @ '' is not a function''))"
proof -
  from controller_resolved_path [OF assms(1-5)] assms(6,7)
  have "controller E (serve_context E r event cx) =
      Inr (error E (''controller/'' @ pre @ ''.'' @ name @ '' is not a function''))"
    by simp
  then show ?thesis
    using assms(8) by (intro serve_error_resolution) simp_all
qed

theorem not_a_function_message_witness:
  "segments (''ns/sub'' @ ''/'' @ ''doThing'') = [''ns'', ''sub''] @ [''doThing'']
   \<and> \<not> list_ex regexp_syntax ''doThing''
   \<and> traverse ''Error at <anonymous>'' demo_ns [''ns'', ''sub''] = Inr demo_sub
   \<and> truthy demo_sub
   \<and> callable (lookup demo_sub ''doThing'') = None
   \<and> passes_failure demo_http (demo_context demo_ns (demo_event ''ns/sub/doThing'') (JBool False))
   \<and> serve (demo_env demo_ns) (demo_router demo_ns JUndefined)
        (demo_event ''ns/sub/doThing'') JUndefined
     = Resolved (JObj [(''code'', JStr ''INTERNAL_SERVER_ERROR''),
         (''message'', JStr ''controller/ns/sub.doThing is not a function'')])"
proof -
  let ?E = "demo_env demo_ns"
  let ?r = "demo_router demo_ns JUndefined"
  let ?ev = "demo_event ''ns/sub/doThing''"
  let ?c = "demo_context demo_ns ?ev (JBool False)"
  have c: "serve_context ?E ?r ?ev JUndefined = ?c"
    by (simp add: js_or_def demo_event_def)
  have t: "stackTrace ?E = ''Error at <anonymous>''" and h: "http ?E = demo_http"
    by (simp_all add: demo_env_def)
  have 1: "parseAction ?E (ctx_event (serve_context ?E ?r ?ev JUndefined))
      = Some (''ns/sub'' @ ''/'' @ ''doThing'')"
    unfolding c by (simp add: demo_env_def demo_context_def demo_event_def)
  have 2: "segments (''ns/sub'' @ ''/'' @ ''doThing'') = [''ns'', ''sub''] @ [''doThing'']"
    by (simp add: segments_def)
  have 3: "[''ns'', ''sub''] \<noteq> []"
    by simp
  have 4: "\<not> list_ex regexp_syntax ''doThing''"
    by (simp add: regexp_syntax_def)
  have 5: "traverse (stackTrace ?E) (ctx_controller (serve_context ?E ?r ?ev JUndefined))
      [''ns'', ''sub''] = Inr demo_sub"
    unfolding c t by (simp add: demo_context_def demo_ns_def getprop_def nullish_def demo_sub_def)
  have 6: "truthy demo_sub" and 7: "callable (lookup demo_sub ''doThing'') = None"
    by (simp_all add: demo_sub_def)
  have 8: "passes_failure (http ?E) (serve_context ?E ?r ?ev JUndefined)"
    by (rule demo_passes_failure)
  have fv: "\<And>m. failure_value ?E ?r m =
      JObj [(''code'', JStr ''INTERNAL_SERVER_ERROR''), (''message'', JStr m)]"
    by (simp add: failure_value_def demo_env_def demo_router_def demo_options_def)
  have s: "serve ?E ?r ?ev JUndefined
      = Resolved (JObj [(''code'', JStr ''INTERNAL_SERVER_ERROR''),
          (''message'', JStr ''controller/ns/sub.doThing is not a function'')])"
    using not_a_function_message [OF 1 2 3 4 5 6 7 8] by (simp add: fv)
  have tr: "traverse ''Error at <anonymous>'' demo_ns [''ns'', ''sub''] = Inr demo_sub"
    using 5 unfolding c t by (simp add: demo_context_def)
  have pf: "passes_failure demo_http ?c"
    using 8 unfolding c h .
  from 2 4 tr 6 7 pf s show ?thesis
    by blast
qed

text \<open>
  Claim C2 as stated fails: the slashes inside the namespace path are kept, the message
  is not \<^verbatim>\<open>controller/ns.sub.doThing is not a function\<close>.
\<close>

theorem dotted_path_message_refuted:
  "traverse ''Error at <anonymous>'' demo_ns [''ns'', ''sub''] = Inr demo_sub
   \<and> callable (lookup demo_sub ''doThing'') = None
   \<and> serve (demo_env demo_ns) (demo_router demo_ns JUndefined)
        (demo_event ''ns/sub/doThing'') JUndefined
     = Resolved (JObj [(''code'', JStr ''INTERNAL_SERVER_ERROR''),
         (''message'', JStr ''controller/ns/sub.doThing is not a function'')])
   \<and> JStr ''controller/ns/sub.doThing is not a function''
     \<noteq> JStr ''controller/ns.sub.doThing is not a function''"
proof -
  let ?E = "demo_env demo_ns"
  let ?r = "demo_router demo_ns JUndefined"
  let ?ev = "demo_event ''ns/sub/doThing''"
  let ?c = "demo_context demo_ns ?ev (JBool False)"
  let ?m = "''controller/ns/sub.doThing is not a function''"
  have c: "serve_context ?E ?r ?ev JUndefined = ?c"
    by (simp add: js_or_def demo_event_def)
  have 1: "traverse ''Error at <anonymous>'' demo_ns [''ns'', ''sub''] = Inr demo_sub"
    by (simp add: demo_ns_def getprop_def nullish_def demo_sub_def)
  have 2: "callable (lookup demo_sub ''doThing'') = None"
    by (simp add: demo_sub_def)
  have 3: "controller ?E ?c = Inr (error ?E ?m)"
    by (simp add: controller_def demo_env_def demo_context_def demo_event_def Let_def
        getprop_def nullish_def demo_ns_def demo_sub_def key_of_def replace_tail_def
        regexp_syntax_def)
  have 4: "chain ?E ?r (error ?E ?m) ?c = Thrown (js_Error ''Error at <anonymous>'' ''Error'' ?m) ?c"
    by (simp add: chain_error) (simp add: error_def demo_env_def demo_http_def)
  have 5: "failed ?E ?r (js_Error ''Error at <anonymous>'' ''Error'' ?m) =
      Inr (JObj [(''code'', JStr ''INTERNAL_SERVER_ERROR''), (''message'', JStr ?m)])"
    by (simp add: failed_def nullish_def js_or_def js_Error_def demo_env_def demo_router_def
        demo_options_def)
  have 6: "serve ?E ?r ?ev JUndefined =
      Resolved (JObj [(''code'', JStr ''INTERNAL_SERVER_ERROR''), (''message'', JStr ?m)])"
    by (simp only: serve_unfold c 3 4 5 sum.case completion.case)
  from 1 2 6 show ?thesis
    by simp
qed

text \<open>An action made of slashes only has no segment, and no final \<^verbatim>\<open>/undefined\<close>.\<close>

lemma split_on_slashes:
  "set action \<subseteq> {CHR ''/''} \<Longrightarrow> filter (\<lambda>s. s \<noteq> []) (split_on CHR ''/'' action) = []"
  by (induction action) simp_all

lemma replace_tail_slashes:
  assumes "set action \<subseteq> {CHR ''/''}" and "CHR ''$'' \<notin> set replacement"
  shows "replace_tail E action None replacement = Inr action"
proof -
  have plain: "\<not> list_ex regexp_syntax ''/undefined''"
    by (simp add: regexp_syntax_def)
  have "drop n action \<noteq> ''/undefined''" for n
  proof
    assume "drop n action = ''/undefined''"
    then have "CHR ''u'' \<in> set (drop n action)"
      by simp
    then have "CHR ''u'' \<in> set action"
      by (rule in_set_dropD)
    with assms(1) show False
      by auto
  qed
  with plain assms(2) show ?thesis
    by (simp add: replace_tail_def key_of_def Let_def)
qed

lemma controller_slashes:
  assumes act: "parseAction E (ctx_event c) = Some action"
    and ne: "action \<noteq> []"
    and slashes: "set action \<subseteq> {CHR ''/''}"
  shows "controller E c =
     (if \<not> truthy (ctx_controller c) then Inr (error E (''controller/'' @ action @ '' not found''))
      else case callable (lookup (ctx_controller c) ''undefined'') of
             None \<Rightarrow> Inr (error E (''controller/'' @ action @ '' is not a function''))
           | Some method \<Rightarrow> Inr (handler E (ctx_controller c) method None))"
proof -
  have r1: "replace_tail E action None [] = Inr action"
    using slashes by (rule replace_tail_slashes) simp
  have r2: "replace_tail E action None ''.undefined'' = Inr action"
    using slashes by (rule replace_tail_slashes) simp
  from act ne r1 r2 split_on_slashes [OF slashes] show ?thesis
    by (simp add: controller_def Let_def key_of_def split: option.split)
qed

text \<open>
  Claim C10, as amended. For a non-empty action made of slashes only, the resolver
  reports neither \<^verbatim>\<open>action is required\<close> nor \<^verbatim>\<open>action must contain "/"\<close>; it looks the
  method name \<^verbatim>\<open>undefined\<close> up in the root handler namespace, and when that namespace
  is truthy and has no callable member of that name, the invocation fails with
  \<^verbatim>\<open>controller/<action> is not a function\<close>.
\<close>

theorem all_slash_action_resolution:
  assumes "parseAction E (ctx_event (serve_context E r event cx)) = Some action"
    and "action \<noteq> []"
    and "set action \<subseteq> {CHR ''/''}"
  shows
  \<open>controller E (serve_context E r event cx) \<noteq> Inr (error E ''action is required'')
   \<and> controller E (serve_context E r event cx) \<noteq> Inr (error E ''action must contain "/"'')
   \<and> (truthy (ctx_controller (serve_context E r event cx)) \<longrightarrow>
        callable (lookup (ctx_controller (serve_context E r event cx)) ''undefined'') = None \<longrightarrow>
          controller E (serve_context E r event cx)
            = Inr (error E (''controller/'' @ action @ '' is not a function''))
        \<and> (passes_failure (http E) (serve_context E r event cx) \<longrightarrow>
             serve E r event cx
               = Resolved (failure_value E r (''controller/'' @ action @ '' is not a function''))))\<close>
proof -
  let ?c = "serve_context E r event cx"
  note res = controller_slashes [OF assms]
  have 1: "controller E ?c \<noteq> Inr (error E ''action is required'')"
    unfolding res by (simp split: option.split)
  have 2: \<open>controller E ?c \<noteq> Inr (error E ''action must contain "/"'')\<close>
    unfolding res by (simp split: option.split)
  have 3: "controller E ?c = Inr (error E (''controller/'' @ action @ '' is not a function''))"
    if "truthy (ctx_controller ?c)" and "callable (lookup (ctx_controller ?c) ''undefined'') = None"
    unfolding res using that by simp
  have 4: "serve E r event cx
      = Resolved (failure_value E r (''controller/'' @ action @ '' is not a function''))"
    if "truthy (ctx_controller ?c)" and "callable (lookup (ctx_controller ?c) ''undefined'') = None"
      and "passes_failure (http E) ?c"
    using 3 [OF that(1,2)] that(3) by (intro serve_error_resolution) simp_all
  from 1 2 3 4 show ?thesis
    by blast
qed

theorem all_slash_action_resolution_witness:
  "set ''//'' \<subseteq> {CHR ''/''}
   \<and> truthy demo_ns
   \<and> callable (lookup demo_ns ''undefined'') = None
   \<and> passes_failure demo_http (demo_context demo_ns (demo_event ''//'') (JBool False))
   \<and> serve (demo_env demo_ns) (demo_router demo_ns JUndefined) (demo_event ''//'') JUndefined
     = Resolved (JObj [(''code'', JStr ''INTERNAL_SERVER_ERROR''),
         (''message'', JStr ''controller/// is not a function'')])"
proof -
  let ?E = "demo_env demo_ns"
  let ?r = "demo_router demo_ns JUndefined"
  let ?ev = "demo_event ''//''"
  let ?c = "demo_context demo_ns ?ev (JBool False)"
  have c: "serve_context ?E ?r ?ev JUndefined = ?c"
    by (simp add: js_or_def demo_event_def)
  have h: "http ?E = demo_http"
    by (simp add: demo_env_def)
  have 1: "parseAction ?E (ctx_event (serve_context ?E ?r ?ev JUndefined)) = Some ''//''"
    unfolding c by (simp add: demo_env_def demo_context_def demo_event_def)
  have 2: "''//'' \<noteq> []" and 3: "set ''//'' \<subseteq> {CHR ''/''}"
    by simp_all
  have root: "ctx_controller (serve_context ?E ?r ?ev JUndefined) = demo_ns"
    unfolding c by (simp add: demo_context_def)
  have 4: "truthy demo_ns" and 5: "callable (lookup demo_ns ''undefined'') = None"
    by (simp_all add: demo_ns_def)
  have 6: "passes_failure (http ?E) (serve_context ?E ?r ?ev JUndefined)"
    by (rule demo_passes_failure)
  have fv: "\<And>m. failure_value ?E ?r m =
      JObj [(''code'', JStr ''INTERNAL_SERVER_ERROR''), (''message'', JStr m)]"
    by (simp add: failure_value_def demo_env_def demo_router_def demo_options_def)
  from all_slash_action_resolution [OF 1 2 3] 4 5 6
  have "serve ?E ?r ?ev JUndefined
      = Resolved (failure_value ?E ?r (''controller/'' @ ''//'' @ '' is not a function''))"
    unfolding root by blast
  then have s: "serve ?E ?r ?ev JUndefined
     = Resolved (JObj [(''code'', JStr ''INTERNAL_SERVER_ERROR''),
         (''message'', JStr ''controller/// is not a function'')])"
    by (simp add: fv)
  have pf: "passes_failure demo_http ?c"
    using 6 unfolding c h .
  from 3 4 5 pf s show ?thesis
    by blast
qed

text \<open>
  Claim C10 as stated fails for a root namespace with a callable member named
  \<^verbatim>\<open>undefined\<close>: the action \<^verbatim>\<open>/\<close> resolves to that member, which is invoked, and no
  failure is reported.
\<close>

theorem all_slash_action_invokes_handler:
  "set ''/'' \<subseteq> {CHR ''/''}
   \<and> segments ''/'' = []
   \<and> lookup (JObj [(''undefined'', JFun 0)]) ''undefined'' = JFun 0
   \<and> controller (demo_env (JObj [(''undefined'', JFun 0)]))
        (demo_context (JObj [(''undefined'', JFun 0)]) (demo_event ''/'') (JBool False))
     = Inr (handler (demo_env (JObj [(''undefined'', JFun 0)])) (JObj [(''undefined'', JFun 0)]) 0 None)
   \<and> serve (demo_env (JObj [(''undefined'', JFun 0)]))
        (demo_router (JObj [(''undefined'', JFun 0)]) JUndefined) (demo_event ''/'') JUndefined
     = Resolved (JStr ''V'')"
proof -
  let ?ns = "JObj [(''undefined'', JFun 0)]"
  let ?E = "demo_env ?ns"
  let ?r = "demo_router ?ns JUndefined"
  let ?ev = "demo_event ''/''"
  let ?c = "demo_context ?ns ?ev (JBool False)"
  let ?h = "handler ?E ?ns 0 None"
  have c: "serve_context ?E ?r ?ev JUndefined = ?c"
    by (simp add: js_or_def demo_event_def)
  have 1: "segments ''/'' = []"
    by (simp add: segments_def)
  have 2: "controller ?E ?c = Inr ?h"
    by (simp add: controller_def demo_env_def demo_context_def demo_event_def Let_def key_of_def)
  have 3: "chain ?E ?r ?h ?c = Normal (?c\<lparr>ctx_body := JStr ''V''\<rparr>)"
    by (simp add: chain_def handler_def demo_router_def wrapMiddleware_def Let_def
        http_options_def demo_http_def demo_env_def demo_call_def)
  have 4: "serve ?E ?r ?ev JUndefined = Resolved (JStr ''V'')"
    by (simp only: serve_unfold c 2 3 sum.case completion.case respond_def) simp
  from 1 2 4 show ?thesis
    by simp
qed


section \<open>Resolution that throws\<close>

text \<open>
  The traversal of the namespace segments throws when a node before the last
  namespace node is missing. \<open>controller\<close> then throws as well, and \<open>serve\<close>, which calls
  it before any chain is built and outside the promise with the catch, rejects.
\<close>

lemma controller_traverse_throws:
  assumes act: "parseAction E (ctx_event c) = Some action"
    and thr: "traverse (stackTrace E) (ctx_controller c) (butlast (segments action)) = Inl e"
  shows "controller E c = Inl e"
proof -
  have ne: "action \<noteq> []"
  proof
    assume "action = []"
    with thr show False by simp
  qed
  have len: "length (segments action) \<noteq> 1"
  proof
    assume "length (segments action) = 1"
    then obtain s where "segments action = [s]"
      by (cases "segments action") simp_all
    with thr show False by simp
  qed
  from act thr ne len show ?thesis
    by (simp add: controller_def Let_def segments_def [symmetric])
qed

lemma serve_rejects_on_throw:
  "controller E (serve_context E r event cx) = Inl e \<Longrightarrow> serve E r event cx = Rejected e"
  by (simp add: serve_unfold)

text \<open>
  When the traversal ends on a node, a missing last node and a method that is not
  callable both give the synthetic error handler, and the error chain runs.
\<close>

lemma path_failure_runs_error_chain:
  assumes "parseAction E (ctx_event (serve_context E r event cx)) = Some (pre @ ''/'' @ name)"
    and "segments (pre @ ''/'' @ name) = path @ [name]"
    and "path \<noteq> []"
    and "\<not> list_ex regexp_syntax name"
    and "traverse (stackTrace E) (ctx_controller (serve_context E r event cx)) path = Inr node"
    and fails: "\<not> truthy node \<or> callable (lookup node name) = None"
    and pass: "passes_failure (http E) (serve_context E r event cx)"
  shows "\<exists>m. controller E (serve_context E r event cx) = Inr (error E m)
       \<and> m = ''controller/'' @ pre @
             (if \<not> truthy node then '' not found'' else ''.'' @ name @ '' is not a function'')
       \<and> (\<forall>ms. serve E (r\<lparr>middleware := ms\<rparr>) event cx = serve E r event cx)
       \<and> serve E r event cx = Resolved (failure_value E r m)"
proof -
  let ?c = "serve_context E r event cx"
  let ?m = "''controller/'' @ pre @
      (if \<not> truthy node then '' not found'' else ''.'' @ name @ '' is not a function'')"
  from controller_resolved_path [OF assms(1-5)] fails
  have res: "controller E ?c = Inr (error E ?m)"
    by auto
  have "u_name (error E ?m) = JStr ''error''"
    by (simp add: error_def)
  with res have "\<forall>ms. serve E (r\<lparr>middleware := ms\<rparr>) event cx = serve E r event cx"
    by (simp add: serve_ignores_middleware_on_error)
  moreover from res pass have "serve E r event cx = Resolved (failure_value E r ?m)"
    by (intro serve_error_resolution) simp_all
  ultimately show ?thesis
    using res by blast
qed

text \<open>
  Claim C4 fails on the code for a namespace node that is missing before the last
  one: resolution throws instead of yielding the synthetic error handler, so no chain
  is executed at all, whatever the registered middleware is, and \<open>serve\<close> rejects
  instead of resolving to a failure object.
\<close>

theorem missing_node_runs_no_chain:
  assumes "parseAction E (ctx_event (serve_context E r event cx)) = Some action"
    and "traverse (stackTrace E) (ctx_controller (serve_context E r event cx))
           (butlast (segments action)) = Inl e"
  shows "controller E (serve_context E r event cx) = Inl e
       \<and> serve E r event cx = Rejected e
       \<and> serve E (r\<lparr>middleware := ms\<rparr>) event cx = Rejected e
       \<and> (\<forall>v. serve E r event cx \<noteq> Resolved v)"
proof -
  from assms have res: "controller E (serve_context E r event cx) = Inl e"
    by (rule controller_traverse_throws)
  then have s: "serve E r event cx = Rejected e"
    by (rule serve_rejects_on_throw)
  have "serve_context E (r\<lparr>middleware := ms\<rparr>) event cx = serve_context E r event cx"
    by (simp add: serve_context_def)
  with res have "serve E (r\<lparr>middleware := ms\<rparr>) event cx = Rejected e"
    by (simp add: serve_unfold)
  with res s show ?thesis
    by simp
qed

theorem missing_node_runs_no_chain_witness:
  "segments ''ns/nosub/deep/doThing'' = [''ns'', ''nosub'', ''deep'', ''doThing'']
   \<and> traverse ''Error at <anonymous>'' demo_ns [''ns'', ''nosub''] = Inr JUndefined
   \<and> serve (demo_env demo_ns) (demo_router demo_ns JUndefined)
        (demo_event ''ns/nosub/deep/doThing'') JUndefined
     = Rejected (JObj [(''name'', JStr ''TypeError''),
         (''message'', JStr ''Cannot read properties of undefined (reading deep)''),
         (''stack'', JStr ''Error at <anonymous>'')])
   \<and> serve (demo_env demo_ns)
        ((demo_router demo_ns JUndefined)\<lparr>middleware := [demo_thrower]\<rparr>)
        (demo_event ''ns/nosub/deep/doThing'') JUndefined
     = Rejected (JObj [(''name'', JStr ''TypeError''),
         (''message'', JStr ''Cannot read properties of undefined (reading deep)''),
         (''stack'', JStr ''Error at <anonymous>'')])"
proof -
  let ?E = "demo_env demo_ns"
  let ?r = "demo_router demo_ns JUndefined"
  let ?ev = "demo_event ''ns/nosub/deep/doThing''"
  let ?c = "demo_context demo_ns ?ev (JBool False)"
  let ?e = "JObj [(''name'', JStr ''TypeError''),
         (''message'', JStr ''Cannot read properties of undefined (reading deep)''),
         (''stack'', JStr ''Error at <anonymous>'')]"
  have c: "serve_context ?E ?r ?ev JUndefined = ?c"
    by (simp add: js_or_def demo_event_def)
  have t: "stackTrace ?E = ''Error at <anonymous>''"
    by (simp add: demo_env_def)
  have seg: "segments ''ns/nosub/deep/doThing'' = [''ns'', ''nosub'', ''deep'', ''doThing'']"
    by (simp add: segments_def)
  have 1: "parseAction ?E (ctx_event (serve_context ?E ?r ?ev JUndefined))
      = Some ''ns/nosub/deep/doThing''"
    unfolding c by (simp add: demo_env_def demo_context_def demo_event_def)
  have pre: "traverse ''Error at <anonymous>'' demo_ns [''ns'', ''nosub''] = Inr JUndefined"
    by (simp add: demo_ns_def getprop_def nullish_def)
  have 2: "traverse (stackTrace ?E) (ctx_controller (serve_context ?E ?r ?ev JUndefined))
      (butlast (segments ''ns/nosub/deep/doThing'')) = Inl ?e"
    unfolding c t seg
    by (simp add: demo_context_def demo_ns_def getprop_def nullish_def js_Error_def)
  from missing_node_runs_no_chain [OF 1 2, of "[demo_thrower]"] seg pre show ?thesis
    by blast
qed

text \<open>
  Claim C8 fails on the code for the same invocations: the outcome is the rejection
  whatever the transport middleware is, so the transport middleware is not executed.
  On the example deployment with a transport middleware that fails as soon as it is
  entered, \<open>serve\<close> still rejects with the \<^verbatim>\<open>TypeError\<close> of the traversal, whereas an
  action of one segment, whose error chain is built, ends with the failure of the
  transport middleware.
\<close>

theorem transport_not_run_when_resolution_throws:
  assumes "parseAction E (ctx_event (serve_context E r event cx)) = Some action"
    and "traverse (stackTrace E) (ctx_controller (serve_context E r event cx))
           (butlast (segments action)) = Inl e"
  shows "serve (E\<lparr>http := h\<rparr>) r event cx = Rejected e"
proof -
  let ?E = "E\<lparr>http := h\<rparr>"
  have c: "serve_context ?E r event cx = serve_context E r event cx"
    by (simp add: serve_context_def)
  from assms have "controller ?E (serve_context ?E r event cx) = Inl e"
    unfolding c by (intro controller_traverse_throws) simp_all
  then show ?thesis
    by (rule serve_rejects_on_throw)
qed

theorem transport_not_run_when_resolution_throws_witness:
  "segments ''ns/sub/nothing/x/doThing'' = [''ns'', ''sub'', ''nothing'', ''x'', ''doThing'']
   \<and> traverse ''Error at <anonymous>'' demo_ns [''ns'', ''sub'', ''nothing''] = Inr JUndefined
   \<and> serve ((demo_env demo_ns)\<lparr>http := demo_thrower\<rparr>) (demo_router demo_ns JUndefined)
        (demo_event ''ns/sub/nothing/x/doThing'') JUndefined
     = Rejected (JObj [(''name'', JStr ''TypeError''),
         (''message'', JStr ''Cannot read properties of undefined (reading x)''),
         (''stack'', JStr ''Error at <anonymous>'')])
   \<and> serve ((demo_env demo_ns)\<lparr>http := demo_thrower\<rparr>) (demo_router demo_ns JUndefined)
        (demo_event ''ns'') JUndefined
     = Resolved (JObj [(''code'', JStr ''INTERNAL_SERVER_ERROR''), (''message'', JStr ''ran'')])"
proof -
  let ?E = "demo_env demo_ns"
  let ?r = "demo_router demo_ns JUndefined"
  let ?ev = "demo_event ''ns/sub/nothing/x/doThing''"
  let ?c = "demo_context demo_ns ?ev (JBool False)"
  let ?e = "JObj [(''name'', JStr ''TypeError''),
         (''message'', JStr ''Cannot read properties of undefined (reading x)''),
         (''stack'', JStr ''Error at <anonymous>'')]"
  have c: "\<And>a. serve_context ?E ?r (demo_event a) JUndefined
      = demo_context demo_ns (demo_event a) (JBool False)"
    by (simp add: js_or_def demo_event_def)
  have t: "stackTrace ?E = ''Error at <anonymous>''"
    by (simp add: demo_env_def)
  have seg: "segments ''ns/sub/nothing/x/doThing'' = [''ns'', ''sub'', ''nothing'', ''x'', ''doThing'']"
    by (simp add: segments_def)
  have 1: "parseAction ?E (ctx_event (serve_context ?E ?r ?ev JUndefined))
      = Some ''ns/sub/nothing/x/doThing''"
    unfolding c by (simp add: demo_env_def demo_context_def demo_event_def)
  have pre: "traverse ''Error at <anonymous>'' demo_ns [''ns'', ''sub'', ''nothing''] = Inr JUndefined"
    by (simp add: demo_ns_def demo_sub_def getprop_def nullish_def)
  have 2: "traverse (stackTrace ?E) (ctx_controller (serve_context ?E ?r ?ev JUndefined))
      (butlast (segments ''ns/sub/nothing/x/doThing'')) = Inl ?e"
    unfolding c t seg
    by (simp add: demo_context_def demo_ns_def demo_sub_def getprop_def nullish_def js_Error_def)
  let ?E' = "?E\<lparr>http := demo_thrower\<rparr>"
  let ?c1 = "demo_context demo_ns (demo_event ''ns'') (JBool False)"
  let ?m = \<open>''action must contain "/"''\<close>
  have c': "serve_context ?E' ?r (demo_event ''ns'') JUndefined = ?c1"
    by (simp add: serve_context_def demo_env_def js_or_def js_and_def demo_event_def)
  have r1: "controller ?E' ?c1 = Inr (error ?E' ?m)"
    by (intro controller_single [of _ _ "''ns''"])
      (simp_all add: demo_env_def demo_context_def demo_event_def segments_def)
  have r2: "chain ?E' ?r (error ?E' ?m) ?c1 = Thrown (JStr ''ran'') ?c1"
    by (simp add: chain_error) (simp add: demo_thrower_def)
  have r3: "failed ?E' ?r (JStr ''ran'') =
      Inr (JObj [(''code'', JStr ''INTERNAL_SERVER_ERROR''), (''message'', JStr ''ran'')])"
    by (simp add: failed_def nullish_def js_or_def demo_env_def demo_router_def demo_options_def)
  have ran: "serve ?E' ?r (demo_event ''ns'') JUndefined =
      Resolved (JObj [(''code'', JStr ''INTERNAL_SERVER_ERROR''), (''message'', JStr ''ran'')])"
    by (simp only: serve_unfold c' r1 r2 r3 sum.case completion.case)
  from transport_not_run_when_resolution_throws [OF 1 2, of demo_thrower] seg pre ran
  show ?thesis
    by blast
qed

end
